theory Spec2Isabelle
  imports Complex_Main "HOL-Library.Log_Nat" "HOL-Library.AList"
begin

section \<open>Python values\<close>

text \<open>
  The two scripts, \<^verbatim>\<open>collect.py\<close> and \<^verbatim>\<open>scorer.py\<close>, work on parsed JSON
  documents. A JSON value is a \<open>json\<close>; a Python \<open>dict\<close> read from JSON is an association
  list from keys to values, looked up with \<open>map_of\<close>. The exceptions that the modelled
  functions can raise are the constructors of \<open>error\<close>.
\<close>

datatype json =
    JNull
  | JBool bool
  | JInt int
  | JFloat rat
  | JStr string
  | JArr "json list"
  | JObj "(string \<times> json) list"

type_synonym dict = "(string \<times> json) list"

datatype error = AttributeError | TypeError | JSONDecodeError | FileNotFoundError

text \<open>\<^verbatim>\<open>d.get(k, default)\<close>.\<close>

definition dict_get :: "dict \<Rightarrow> string \<Rightarrow> json \<Rightarrow> json" where
  "dict_get d k dflt = (case map_of d k of None \<Rightarrow> dflt | Some v \<Rightarrow> v)"

text \<open>Python's truth value of a JSON value, as \<^verbatim>\<open>not x\<close> and \<^verbatim>\<open>if x\<close> read it.\<close>

fun truthy :: "json \<Rightarrow> bool" where
  "truthy JNull = False"
| "truthy (JBool b) = b"
| "truthy (JInt n) = (n \<noteq> 0)"
| "truthy (JFloat x) = (x \<noteq> 0)"
| "truthy (JStr s) = (s \<noteq> [])"
| "truthy (JArr xs) = (xs \<noteq> [])"
| "truthy (JObj kvs) = (kvs \<noteq> [])"

subsection \<open>Strings\<close>

text \<open>
  Texts are ASCII strings: \<^verbatim>\<open>str.lower\<close> maps \<open>A\<close>..\<open>Z\<close> to \<open>a\<close>..\<open>z\<close> and leaves every
  other character alone. \<^verbatim>\<open>w in text\<close> on strings is the substring test.
\<close>

definition lower_char :: "char \<Rightarrow> char" where
  "lower_char c =
     (let n = (of_char c :: nat) in if 65 \<le> n \<and> n \<le> 90 then char_of (n + 32) else c)"

definition lower :: "string \<Rightarrow> string" where
  "lower s = map lower_char s"

fun substr :: "string \<Rightarrow> string \<Rightarrow> bool" where
  "substr w [] = (w = [])"
| "substr w (c # cs) = (take (length w) (c # cs) = w \<or> substr w cs)"

text \<open>\<^verbatim>\<open>sum(1 for w in WORDS if w in text)\<close>.\<close>

definition count_matches :: "string list \<Rightarrow> string \<Rightarrow> nat" where
  "count_matches ws s = length (filter (\<lambda>w. substr w s) ws)"

subsection \<open>Floating point\<close>

text \<open>
  A Python \<open>float\<close> is an IEEE 754 binary64 number. It is modelled by the rational number
  it denotes, and every floating-point operation is the exact operation followed by \<open>fl\<close>,
  rounding to the nearest number with a 53 bit significand, ties to the even significand.
  The exponent range is not bounded: overflow to infinity and subnormal numbers, which
  need operands beyond \<open>2 ^ 1023\<close> or below \<open>2 ^ - 1022\<close>, are not modelled.

  \<open>rhe\<close> rounds a rational to the nearest integer, ties to even: Python's one-argument
  \<^verbatim>\<open>round\<close> on a \<open>float\<close>. \<open>ilog2 x\<close> is the exponent \<open>e\<close> with \<open>2 ^ e \<le> x < 2 ^ (e + 1)\<close>
  for positive \<open>x\<close>.
\<close>

definition rhe :: "rat \<Rightarrow> int" where
  "rhe x = (let f = \<lfloor>x\<rfloor>; d = x - of_int f in
     if d < 1 / 2 then f else if 1 / 2 < d then f + 1 else if even f then f else f + 1)"

definition ilog2 :: "rat \<Rightarrow> int" where
  "ilog2 x = (let (a, b) = quotient_of x; d = bitlen a - bitlen b in
     if 2 powi d \<le> x then d else d - 1)"

definition fl :: "rat \<Rightarrow> rat" where
  "fl x = (if x = 0 then 0 else
     let u = 2 powi (ilog2 \<bar>x\<bar> - 52) in of_int (rhe (x / u)) * u)"

text \<open>\<^verbatim>\<open>round(x, 2)\<close> and \<^verbatim>\<open>round(x, 3)\<close> on a \<open>float\<close>: the value is rounded to the
  given number of decimals (ties to even on the exact value), and the decimal is read
  back as a \<open>float\<close>.\<close>

definition round_nd :: "nat \<Rightarrow> rat \<Rightarrow> rat" where
  "round_nd k x = fl (of_int (rhe (x * 10 ^ k)) / 10 ^ k)"

section \<open>collect.py: the magnitude-policy classifier\<close>

definition POSITIVE_WORDS :: "string list" where
  "POSITIVE_WORDS =
    [''great'', ''amazing'', ''excellent'', ''love'', ''brilliant'', ''innovative'', ''solve'',
     ''solving'', ''solution'', ''hero'', ''impressive'', ''breakthrough'', ''future'',
     ''real deal'', ''incredible'', ''fantastic'', ''support'', ''proud'', ''exciting'',
     ''hope'', ''helpful'', ''progress'', ''success'', ''positive'', ''good'', ''awesome'',
     ''transformative'', ''revolutionary'', ''game changer'', ''life saving'']"

definition NEGATIVE_WORDS :: "string list" where
  "NEGATIVE_WORDS =
    [''scam'', ''fraud'', ''dangerous'', ''flood'', ''drought'', ''blame'', ''held accountable'',
     ''conspiracy'', ''hoax'', ''unproven'', ''destroy'', ''damage'', ''harm'', ''risk'',
     ''lawsuit'', ''corrupt'', ''chemtrail'', ''poison'', ''terrible'', ''awful'', ''worst'',
     ''reckless'', ''irresponsible'', ''fake'', ''lie'', ''lies'', ''grift'', ''grifter'',
     ''catastrophe'', ''disaster'', ''toxic'', ''threat'', ''threatening'']"

text \<open>\<^verbatim>\<open>score_sentiment\<close> of \<^verbatim>\<open>collect.py\<close>: the pair (label, confidence).\<close>

definition collect_score_sentiment :: "string \<Rightarrow> string \<times> rat" where
  "collect_score_sentiment txt =
     (let text_lower = lower txt;
          pos_count = count_matches POSITIVE_WORDS text_lower;
          neg_count = count_matches NEGATIVE_WORDS text_lower
      in if pos_count > neg_count
           then (''positive'', min (fl (1 / 2 + fl (of_nat pos_count * fl (15 / 100)))) (fl (95 / 100)))
         else if neg_count > pos_count
           then (''negative'', min (fl (1 / 2 + fl (of_nat neg_count * fl (15 / 100)))) (fl (95 / 100)))
         else (''neutral'', 1 / 2))"

section \<open>scorer.py: the ratio-policy classifier\<close>

definition RISK_KEYWORDS_negative :: "string list" where
  "RISK_KEYWORDS_negative =
    [''scam'', ''fraud'', ''lawsuit'', ''complaint'', ''ripped off'', ''terrible'',
     ''sued'', ''criminal'', ''ponzi'', ''ripoff'', ''avoid'', ''worst'', ''fake'']"

definition RISK_KEYWORDS_positive :: "string list" where
  "RISK_KEYWORDS_positive =
    [''love'', ''recommend'', ''amazing'', ''best'', ''great'', ''excellent'',
     ''incredible'', ''fantastic'', ''impressed'', ''helpful'', ''brilliant'']"

text \<open>\<^verbatim>\<open>score_sentiment\<close> of \<^verbatim>\<open>scorer.py\<close>: the pair (label, score).\<close>

definition scorer_score_sentiment :: "string \<Rightarrow> string \<times> rat" where
  "scorer_score_sentiment txt =
     (let text_lower = lower txt;
          pos = count_matches RISK_KEYWORDS_positive text_lower;
          neg = count_matches RISK_KEYWORDS_negative text_lower;
          total = pos + neg
      in if total = 0 then (''neutral'', 0)
         else let score = fl (of_int (int pos - int neg) / of_int (int total))
              in if score > fl (2 / 10) then (''positive'', score)
                 else if score < - fl (2 / 10) then (''negative'', score)
                 else (''mixed'', score))"

section \<open>collect.py: scoring, aggregation and the date-keyed merge\<close>

text \<open>
  A tweet as the search returns it and a user of the lookup table: every field the script
  reads with \<^verbatim>\<open>.get\<close> is optional. The public metrics are a dictionary of integer counts.
\<close>

record tweet =
  raw_id :: string
  raw_text :: "string option"
  raw_public_metrics :: "(string \<times> int) list option"
  raw_author_id :: "string option"
  raw_created_at :: "string option"

record user =
  user_username :: "string option"
  user_followers_count :: "int option"

text \<open>A scored tweet: the dictionary that \<^verbatim>\<open>score_tweets\<close> builds, all of whose keys are
  always present.\<close>

record scored_tweet =
  tweet_id :: string
  tweet_text :: string
  username :: string
  author_id :: string
  created_at :: string
  sentiment :: string
  confidence :: rat
  reach :: int
  metrics :: "(string \<times> int) list"
  follower_count :: int

text \<open>\<^verbatim>\<open>metrics.get(key, 0)\<close> on a dictionary of counts.\<close>

definition count_get :: "(string \<times> int) list \<Rightarrow> string \<Rightarrow> int" where
  "count_get m k = (case map_of m k of None \<Rightarrow> 0 | Some v \<Rightarrow> v)"

definition score_tweets :: "tweet list \<Rightarrow> (string \<times> user) list \<Rightarrow> scored_tweet list" where
  "score_tweets tweets users_map = map (\<lambda>t.
     let txt = (case raw_text t of None \<Rightarrow> [] | Some s \<Rightarrow> s);
         (label, conf) = collect_score_sentiment txt;
         mtr = (case raw_public_metrics t of None \<Rightarrow> [] | Some m \<Rightarrow> m);
         aid = (case raw_author_id t of None \<Rightarrow> [] | Some a \<Rightarrow> a);
         usr = (case map_of users_map aid of
                  None \<Rightarrow> \<lparr>user_username = None, user_followers_count = None\<rparr>
                | Some u \<Rightarrow> u);
         uname = (case user_username usr of None \<Rightarrow> ''unknown'' | Some n \<Rightarrow> n);
         followers = (case user_followers_count usr of None \<Rightarrow> 0 | Some n \<Rightarrow> n);
         rch = count_get mtr ''retweet_count'' * 10 + count_get mtr ''like_count'' * 2
               + count_get mtr ''reply_count'' * 5 + count_get mtr ''quote_count'' * 8
               + followers
     in \<lparr>tweet_id = raw_id t, tweet_text = txt, username = ''@'' @ uname, author_id = aid,
         created_at = (case raw_created_at t of None \<Rightarrow> [] | Some c \<Rightarrow> c),
         sentiment = label, confidence = round_nd 2 conf, reach = rch, metrics = mtr,
         follower_count = followers\<rparr>) tweets"

text \<open>\<^verbatim>\<open>sum(1 for t in scored_tweets if t["sentiment"] == label)\<close> and
  \<^verbatim>\<open>sum(t["reach"] for t in scored_tweets if t["sentiment"] == label)\<close>.\<close>

definition count_label :: "string \<Rightarrow> scored_tweet list \<Rightarrow> int" where
  "count_label label ts = int (length (filter (\<lambda>t. sentiment t = label) ts))"

definition reach_label :: "string \<Rightarrow> scored_tweet list \<Rightarrow> int" where
  "reach_label label ts = sum_list (map reach (filter (\<lambda>t. sentiment t = label) ts))"

definition compute_brand_score :: "scored_tweet list \<Rightarrow> int" where
  "compute_brand_score scored_tweets =
     (if scored_tweets = [] then 50
      else
        let total = int (length scored_tweets);
            pos = count_label ''positive'' scored_tweets;
            neg = count_label ''negative'' scored_tweets;
            sum_reach = sum_list (map reach scored_tweets);
            total_reach = (if sum_reach \<noteq> 0 then sum_reach else 1);
            pos_reach = reach_label ''positive'' scored_tweets;
            neg_reach = reach_label ''negative'' scored_tweets;
            count_score = fl (fl (fl (of_int (pos - neg) / of_int total) * 50) + 50);
            reach_score = fl (fl (fl (of_int (pos_reach - neg_reach) / of_int total_reach) * 50) + 50);
            score = fl (fl (count_score * fl (4 / 10)) + fl (reach_score * fl (6 / 10)))
        in max 0 (min 100 (rhe score)))"

text \<open>
  The persisted dashboard document \<^verbatim>\<open>data.json\<close>: a JSON object of which the script reads
  four keys, each of which may be missing. Score entries and alerts are JSON objects. The
  state of the file when the script starts is a \<open>stored\<close>: the file does not exist, it
  exists and \<^verbatim>\<open>json.loads\<close> raises on its text, or it parses to a document.
\<close>

record dashboard =
  meta :: "dict option"
  scores :: "dict list option"
  riskAlerts :: "dict list option"
  accountProfiles :: "json option"
  aggregate :: "json option"
  topMentions :: "dict list option"

datatype 'a stored = Missing | Corrupt | Document 'a

text \<open>The load at the head of \<^verbatim>\<open>build_dashboard_json\<close>: the default, replaced by the parsed
  file when it exists and parses; the bare \<^verbatim>\<open>except\<close> keeps the default.\<close>

definition load_existing :: "dashboard stored \<Rightarrow> dashboard" where
  "load_existing file =
     (let existing = \<lparr>meta = None, scores = Some [], riskAlerts = None,
                       accountProfiles = None, aggregate = None, topMentions = Some []\<rparr>
      in case file of
           Missing \<Rightarrow> existing
         | Corrupt \<Rightarrow> existing
         | Document d \<Rightarrow> d)"

text \<open>\<^verbatim>\<open>xs[-n:]\<close> for a positive \<open>n\<close>.\<close>

definition last_n :: "nat \<Rightarrow> 'a list \<Rightarrow> 'a list" where
  "last_n n xs = drop (length xs - n) xs"

text \<open>\<^verbatim>\<open>round(c / total * 100) if total else 0\<close>, the expression of each percentage
  (\<open>n\<close> is the total).\<close>

definition percent :: "int \<Rightarrow> int \<Rightarrow> int" where
  "percent c n = (if n \<noteq> 0 then rhe (fl (fl (of_int c / of_int n) * 100)) else 0)"

text \<open>Decimal output: \<^verbatim>\<open>{n:,}\<close> on an integer and \<^verbatim>\<open>{x:.2f}\<close> on a number.\<close>

definition digit :: "nat \<Rightarrow> char" where
  "digit d = char_of (48 + d)"

fun show_nat :: "nat \<Rightarrow> string" where
  "show_nat n = (if n < 10 then [digit n] else show_nat (n div 10) @ [digit (n mod 10)])"

fun comma_nat :: "nat \<Rightarrow> string" where
  "comma_nat n =
     (if n < 1000 then show_nat n
      else comma_nat (n div 1000) @ '','' @
           [digit (n mod 1000 div 100), digit (n mod 100 div 10), digit (n mod 10)])"

definition fmt_comma :: "int \<Rightarrow> string" where
  "fmt_comma i = (if i < 0 then ''-'' @ comma_nat (nat (- i)) else comma_nat (nat i))"

definition fmt_2f :: "rat \<Rightarrow> string" where
  "fmt_2f x =
     (let n = nat (rhe (\<bar>x\<bar> * 100))
      in (if x < 0 then ''-'' else '''') @ show_nat (n div 100) @ ''.'' @
         [digit (n mod 100 div 10), digit (n mod 10)])"

definition conspiracy_keywords :: "string list" where
  "conspiracy_keywords =
     [''chemtrail'', ''weather control'', ''government'', ''conspiracy'', ''hoax'',
      ''geo-engineer'', ''haarp'']"

text \<open>The separator of the post key, a space, an em dash (three bytes in UTF-8) and a
  space.\<close>

definition dash_sep :: string where
  "dash_sep = [CHR '' '', CHR 0xE2, CHR 0x80, CHR 0x94, CHR '' '']"

text \<open>The body of the loop over the scored tweets: the alert of one tweet, when it fires,
  is appended to the list unless an alert with the same post key is already there.\<close>

definition alert_step :: "string \<Rightarrow> dict list \<Rightarrow> scored_tweet \<Rightarrow> dict list" where
  "alert_step today risk_alerts t =
     (let replies = count_get (metrics t) ''reply_count'';
          likes = count_get (metrics t) ''like_count'';
          ratio = (if likes > 0 then fl (of_int replies / of_int likes) else 0);
          text_lower = lower (tweet_text t);
          has_conspiracy = list_ex (\<lambda>kw. substr kw text_lower) conspiracy_keywords
      in if ratio > fl (15 / 100) \<or> (sentiment t = ''negative'' \<and> reach t > 50000) \<or> has_conspiracy
         then
           let severity = (if ratio > fl (25 / 100) \<or> has_conspiracy then ''HIGH'' else ''MEDIUM'');
               alert =
                 [(''severity'', JStr severity),
                  (''type'', JStr ''auto_detected''),
                  (''post'', JStr (username t @ dash_sep @ take 10 (created_at t))),
                  (''text'', JStr (take 200 (tweet_text t))),
                  (''metrics'', JObj (map (\<lambda>(k, v). (k, JInt v)) (metrics t))),
                  (''replyLikeRatio'', if likes > 0 then JFloat (round_nd 3 ratio) else JInt 0),
                  (''reason'', JStr (''Reply:like ratio '' @ fmt_2f ratio @ ''. Reach '' @
                      fmt_comma (reach t) @ ''.'' @
                      (if has_conspiracy then '' Conspiracy keywords detected.'' else ''''))),
                  (''date'', JStr (if created_at t \<noteq> [] then take 10 (created_at t) else today))]
           in if \<not> list_ex (\<lambda>r. map_of r ''post'' = map_of alert ''post'') risk_alerts
              then risk_alerts @ [alert]
              else risk_alerts
         else risk_alerts)"

definition build_dashboard_json ::
  "scored_tweet list \<Rightarrow> int \<Rightarrow> string \<Rightarrow> string \<Rightarrow> dashboard stored \<Rightarrow> dashboard" where
  "build_dashboard_json scored_tweets brand_score now today file =
     (let total = int (length scored_tweets);
          pos = count_label ''positive'' scored_tweets;
          neg = count_label ''negative'' scored_tweets;
          neu = total - pos - neg;
          top_mentions = take 20 (sort_key (\<lambda>t. - reach t) scored_tweets);
          existing = load_existing file;
          scores0 = filter (\<lambda>s. map_of s ''date'' \<noteq> Some (JStr today))
                      (case scores existing of None \<Rightarrow> [] | Some xs \<Rightarrow> xs);
          scores1 = scores0 @
            [[(''date'', JStr today),
              (''score'', JInt brand_score),
              (''positive'', JInt (percent pos total)),
              (''negative'', JInt (percent neg total)),
              (''neutral'', JInt (percent neu total)),
              (''totalTweets'', JInt total)]];
          risk_alerts = foldl (alert_step today)
                          (case riskAlerts existing of None \<Rightarrow> [] | Some xs \<Rightarrow> xs)
                          scored_tweets
      in \<lparr>meta = Some
             [(''lastUpdated'', JStr now),
              (''targets'', JArr [JStr ''@rainmakercorp'', JStr ''@ADoricko'']),
              (''keywords'', JArr [JStr ''rain maker'', JStr ''rainmaker corp'',
                                  JStr ''cloud seeding'', JStr ''weather modification''])],
          scores = Some (last_n 90 scores1),
          riskAlerts = Some (last_n 50 risk_alerts),
          accountProfiles = Some (case accountProfiles existing of None \<Rightarrow> JObj [] | Some v \<Rightarrow> v),
          aggregate = Some (case aggregate existing of None \<Rightarrow> JObj [] | Some v \<Rightarrow> v),
          topMentions = Some (map (\<lambda>t.
             [(''user'', JStr (username t)),
              (''text'', JStr (take 280 (tweet_text t))),
              (''sentiment'', JStr (sentiment t)),
              (''reach'', JInt (reach t)),
              (''date'', JStr (if created_at t \<noteq> [] then take 10 (created_at t) else today))])
             top_mentions)\<rparr>)"

text \<open>\<^verbatim>\<open>main\<close> of \<^verbatim>\<open>collect.py\<close>, from the collected tweets on: the new state of
  \<^verbatim>\<open>data.json\<close>. With no tweet collected it returns before anything is written.\<close>

definition collect_main ::
  "tweet list \<Rightarrow> (string \<times> user) list \<Rightarrow> string \<Rightarrow> string \<Rightarrow> dashboard stored \<Rightarrow> dashboard stored" where
  "collect_main tweets users_map now today file =
     (if tweets = [] then file
      else
        let scored = score_tweets tweets users_map;
            brand_score = compute_brand_score scored
        in Document (build_dashboard_json scored brand_score now today file))"

section \<open>scorer.py: engagement, posts and the posts-mode load\<close>

text \<open>
  A Python number is an \<open>int\<close> or a \<open>float\<close>. Arithmetic on two \<open>int\<close>s is exact; when
  one operand is a \<open>float\<close> the other is converted and the operation rounds. \<open>to_num\<close>
  reads a JSON value as a number (\<^verbatim>\<open>True\<close> and \<^verbatim>\<open>False\<close> are the integers 1 and 0); with
  any other value the sum of \<^verbatim>\<open>score_engagement\<close> raises \<^verbatim>\<open>TypeError\<close>.
\<close>

datatype pynum = PInt int | PFloat rat

fun to_float :: "pynum \<Rightarrow> rat" where
  "to_float (PInt i) = fl (of_int i)"
| "to_float (PFloat x) = x"

fun py_mul :: "pynum \<Rightarrow> pynum \<Rightarrow> pynum" where
  "py_mul (PInt a) (PInt b) = PInt (a * b)"
| "py_mul a b = PFloat (fl (to_float a * to_float b))"

fun py_add :: "pynum \<Rightarrow> pynum \<Rightarrow> pynum" where
  "py_add (PInt a) (PInt b) = PInt (a + b)"
| "py_add a b = PFloat (fl (to_float a + to_float b))"

text \<open>\<^verbatim>\<open>round(x, 2)\<close>: an \<open>int\<close> is returned as it is.\<close>

fun py_round2 :: "pynum \<Rightarrow> pynum" where
  "py_round2 (PInt i) = PInt i"
| "py_round2 (PFloat x) = PFloat (round_nd 2 x)"

fun to_num :: "json \<Rightarrow> error + pynum" where
  "to_num (JInt i) = Inr (PInt i)"
| "to_num (JFloat x) = Inr (PFloat x)"
| "to_num (JBool b) = Inr (PInt (if b then 1 else 0))"
| "to_num _ = Inl TypeError"

fun of_num :: "pynum \<Rightarrow> json" where
  "of_num (PInt i) = JInt i"
| "of_num (PFloat x) = JFloat x"

definition ENGAGEMENT_WEIGHTS :: "(string \<times> pynum) list" where
  "ENGAGEMENT_WEIGHTS =
     [(''likes'', PInt 1),
      (''retweets'', PInt 3),
      (''reposts'', PInt 3),
      (''replies'', PInt 5),
      (''views'', PFloat (fl (1 / 1000)))]"

text \<open>\<^verbatim>\<open>detect_risk\<close>: the risk keywords found, in the order of the list.\<close>

definition detect_risk :: "string \<Rightarrow> string list" where
  "detect_risk txt = filter (\<lambda>kw. substr kw (lower txt)) RISK_KEYWORDS_negative"

text \<open>The loop of \<^verbatim>\<open>score_engagement\<close>: \<^verbatim>\<open>total += metrics.get(key, 0) * weight\<close> for
  each weight in turn.\<close>

fun engagement_sum :: "dict \<Rightarrow> (string \<times> pynum) list \<Rightarrow> pynum \<Rightarrow> error + pynum" where
  "engagement_sum ms [] acc = Inr acc"
| "engagement_sum ms ((key, weight) # ws) acc =
     (case to_num (dict_get ms key (JInt 0)) of
        Inl e \<Rightarrow> Inl e
      | Inr v \<Rightarrow> engagement_sum ms ws (py_add acc (py_mul v weight)))"

definition score_engagement :: "dict \<Rightarrow> error + pynum" where
  "score_engagement ms =
     (case engagement_sum ms ENGAGEMENT_WEIGHTS (PInt 0) of
        Inl e \<Rightarrow> Inl e
      | Inr acc \<Rightarrow> Inr (py_round2 acc))"

definition score_reach :: "int \<Rightarrow> rat" where
  "score_reach author_followers =
     (if author_followers \<ge> 100000 then 3
      else if author_followers \<ge> 10000 then 2
      else if author_followers \<ge> 1000 then 3 / 2
      else 1)"

text \<open>
  \<^verbatim>\<open>score_existing_post\<close>. The text must be a string (\<^verbatim>\<open>text.lower()\<close>) and the metrics a
  dictionary (\<^verbatim>\<open>metrics.get\<close>): anything else raises \<^verbatim>\<open>AttributeError\<close>. The result is the
  post with four keys set.
\<close>

definition score_existing_post :: "dict \<Rightarrow> error + dict" where
  "score_existing_post post =
     (case dict_get post ''content'' (JStr []) of
        JStr txt \<Rightarrow>
          (let (sentiment_label, sentiment_score) = scorer_score_sentiment txt;
               risks = detect_risk txt
           in case dict_get post ''metrics'' (JObj []) of
                JObj ms \<Rightarrow>
                  (case score_engagement ms of
                     Inl e \<Rightarrow> Inl e
                   | Inr engagement \<Rightarrow> Inr
                       (AList.update ''risk_flag''
                          (dict_get post ''risk_flag'' (JBool (length risks > 0)))
                       (AList.update ''risk_keywords'' (JArr (map JStr risks))
                       (AList.update ''engagement_score'' (of_num engagement)
                       (AList.update ''sentiment''
                          (if \<not> truthy (dict_get post ''sentiment'' JNull)
                           then JStr sentiment_label
                           else dict_get post ''sentiment'' JNull)
                        post)))))
              | _ \<Rightarrow> Inl AttributeError)
      | _ \<Rightarrow> Inl AttributeError)"

text \<open>
  Iteration over a JSON value, as a \<^verbatim>\<open>for\<close> loop, a comprehension, \<^verbatim>\<open>set(...)\<close> and
  \<^verbatim>\<open>set.update\<close> do it: the elements of a list, the characters of a string, the keys of a
  dictionary; any other value raises \<^verbatim>\<open>TypeError\<close>. A list or a dictionary cannot be put
  into a set. Python takes equal numbers (\<open>1\<close>, \<open>1.0\<close> and \<^verbatim>\<open>True\<close>) for one element of a
  set; the model keeps them apart.
\<close>

fun py_iter :: "json \<Rightarrow> error + json list" where
  "py_iter (JArr xs) = Inr xs"
| "py_iter (JStr s) = Inr (map (\<lambda>c. JStr [c]) s)"
| "py_iter (JObj kvs) = Inr (map (\<lambda>kv. JStr (fst kv)) kvs)"
| "py_iter _ = Inl TypeError"

fun hashable :: "json \<Rightarrow> bool" where
  "hashable (JArr xs) = False"
| "hashable (JObj kvs) = False"
| "hashable _ = True"

definition set_update :: "json set \<Rightarrow> json \<Rightarrow> error + json set" where
  "set_update s v =
     (case py_iter v of
        Inl e \<Rightarrow> Inl e
      | Inr xs \<Rightarrow> if list_all hashable xs then Inr (s \<union> set xs) else Inl TypeError)"

fun map_err :: "('a \<Rightarrow> error + 'b) \<Rightarrow> 'a list \<Rightarrow> error + 'b list" where
  "map_err f [] = Inr []"
| "map_err f (x # xs) =
     (case f x of
        Inl e \<Rightarrow> Inl e
      | Inr y \<Rightarrow> (case map_err f xs of Inl e \<Rightarrow> Inl e | Inr ys \<Rightarrow> Inr (y # ys)))"

text \<open>The sort key \<^verbatim>\<open>p.get("engagement_score", 0)\<close> of a scored post, a number.\<close>

definition engagement_key :: "dict \<Rightarrow> rat" where
  "engagement_key p =
     (case dict_get p ''engagement_score'' (JInt 0) of
        JInt i \<Rightarrow> of_int i
      | JFloat x \<Rightarrow> x
      | _ \<Rightarrow> 0)"

text \<open>The loop of \<^verbatim>\<open>process_existing\<close> that gathers the risk signals of the flagged
  posts.\<close>

fun gather_risks :: "json set \<Rightarrow> dict list \<Rightarrow> error + json set" where
  "gather_risks s [] = Inr s"
| "gather_risks s (p # ps) =
     (if truthy (dict_get p ''risk_flag'' JNull)
      then (case set_update s (dict_get p ''risk_keywords'' (JArr [])) of
              Inl e \<Rightarrow> Inl e
            | Inr s1 \<Rightarrow>
                (case set_update s1 (dict_get p ''topics'' (JArr [])) of
                   Inl e \<Rightarrow> Inl e
                 | Inr s2 \<Rightarrow> gather_risks s2 ps))
      else gather_risks s ps)"

text \<open>
  \<^verbatim>\<open>process_existing\<close> on the state of \<^verbatim>\<open>initial-pull.json\<close>. \<^verbatim>\<open>open\<close> raises when the
  file does not exist and \<^verbatim>\<open>json.load\<close> raises when its text is not JSON; neither is
  caught. The result is the document with its posts scored and sorted, and the set of
  risk signals, which the script stores as a list in the set's own order.
\<close>

definition process_existing :: "json stored \<Rightarrow> error + dict \<times> json set" where
  "process_existing pull =
     (case pull of
        Missing \<Rightarrow> Inl FileNotFoundError
      | Corrupt \<Rightarrow> Inl JSONDecodeError
      | Document (JObj data) \<Rightarrow>
          (case py_iter (dict_get data ''recentPosts'' (JArr [])) of
             Inl e \<Rightarrow> Inl e
           | Inr posts \<Rightarrow>
               (case map_err (\<lambda>p. case p of JObj d \<Rightarrow> score_existing_post d
                                         | _ \<Rightarrow> Inl AttributeError) posts of
                  Inl e \<Rightarrow> Inl e
                | Inr scored \<Rightarrow>
                    (let scored_posts = sort_key (\<lambda>p. - engagement_key p) scored;
                         data1 = AList.update ''recentPosts'' (JArr (map JObj scored_posts)) data
                     in case set_update {} (dict_get data1 ''riskSignals'' (JArr [])) of
                          Inl e \<Rightarrow> Inl e
                        | Inr s0 \<Rightarrow>
                            (case gather_risks s0 scored_posts of
                               Inl e \<Rightarrow> Inl e
                             | Inr all_risks \<Rightarrow> Inr (data1, all_risks)))))
      | Document _ \<Rightarrow> Inl AttributeError)"

text \<open>\<^verbatim>\<open>main\<close> of \<^verbatim>\<open>scorer.py\<close> up to the raw mention files: the existing pull is
  processed when the file exists, and replaced by the empty default when it does not.\<close>

definition scorer_main_load :: "json stored \<Rightarrow> error + dict \<times> json set" where
  "scorer_main_load pull =
     (case pull of
        Missing \<Rightarrow> Inr ([(''recentPosts'', JArr []), (''accounts'', JObj [])], {})
      | _ \<Rightarrow> process_existing pull)"

section \<open>The vocabulary of the claims\<close>

text \<open>
  The policies in the specification's words. A keyword matches a text when it occurs in
  the lowercased text as a contiguous substring; \<open>matching_keywords\<close> is the set of
  distinct configured keywords that match. \<open>magnitude_policy\<close> is the magnitude policy on
  the two counts, its confidence evaluated in floating point.
\<close>

definition occurs :: "string \<Rightarrow> string \<Rightarrow> bool" where
  "occurs w s = (\<exists>pre suf. s = pre @ w @ suf)"

definition matching_keywords :: "string list \<Rightarrow> string \<Rightarrow> string set" where
  "matching_keywords ws txt = {w \<in> set ws. occurs w (lower txt)}"

definition magnitude_policy :: "nat \<Rightarrow> nat \<Rightarrow> string \<times> rat" where
  "magnitude_policy p n =
     (if p > n then (''positive'', min (fl (1 / 2 + fl (of_nat p * fl (15 / 100)))) (fl (95 / 100)))
      else if n > p then (''negative'', min (fl (1 / 2 + fl (of_nat n * fl (15 / 100)))) (fl (95 / 100)))
      else (''neutral'', 1 / 2))"

text \<open>
  The brand score in the specification's words: the blend of the count score and the reach
  score, the reach total floored at \<open>1\<close>, rounded and clamped to \<open>[0, 100]\<close>; evaluated in
  floating point.
\<close>

definition brand_score_formula :: "scored_tweet list \<Rightarrow> int" where
  "brand_score_formula ts =
     (let n = int (length ts);
          pos = count_label ''positive'' ts;
          neg = count_label ''negative'' ts;
          total_reach = max (sum_list (map reach ts)) 1;
          pos_reach = reach_label ''positive'' ts;
          neg_reach = reach_label ''negative'' ts;
          count_score = fl (fl (fl (of_int (pos - neg) / of_int n) * 50) + 50);
          reach_score = fl (fl (fl (of_int (pos_reach - neg_reach) / of_int total_reach) * 50) + 50)
      in max 0 (min 100 (rhe (fl (fl (count_score * fl (4 / 10)) + fl (reach_score * fl (6 / 10)))))))"

text \<open>The example batch of the specification: three mentions with reaches 100, 50 and 10.\<close>

definition example_tweet :: "string \<Rightarrow> string \<Rightarrow> int \<Rightarrow> scored_tweet" where
  "example_tweet txt label r =
     \<lparr>tweet_id = ''1'', tweet_text = txt, username = ''@user'', author_id = ''7'',
      created_at = ''2024-05-01T10:00:00Z'', sentiment = label, confidence = 1 / 2, reach = r,
      metrics = [(''reply_count'', 3), (''like_count'', 10)], follower_count = 0\<rparr>"

definition example_batch :: "scored_tweet list" where
  "example_batch =
     [example_tweet ''this is amazing and a total breakthrough'' ''positive'' 100,
      example_tweet ''total scam, lawsuit incoming'' ''negative'' 50,
      example_tweet ''weather today is mild'' ''neutral'' 10]"

text \<open>
  The vocabulary of the merge claims. \<open>existing_scores\<close> and \<open>existing_alerts\<close> are the
  persisted series the merge starts from; \<open>daily_score\<close> is the DailyScore entry of a batch;
  \<open>entry_date\<close> and \<open>post_key\<close> read the date of a score entry and the deduplication key
  of an alert (the \<^verbatim>\<open>post\<close> field, built from the author and the date of the mention);
  \<open>unique_dates\<close> and \<open>unique_posts\<close> say that no date, and no key, occurs twice.
\<close>

definition existing_scores :: "dashboard stored \<Rightarrow> dict list" where
  "existing_scores file = (case scores (load_existing file) of None \<Rightarrow> [] | Some xs \<Rightarrow> xs)"

definition existing_alerts :: "dashboard stored \<Rightarrow> dict list" where
  "existing_alerts file = (case riskAlerts (load_existing file) of None \<Rightarrow> [] | Some xs \<Rightarrow> xs)"

definition daily_score :: "scored_tweet list \<Rightarrow> int \<Rightarrow> string \<Rightarrow> dict" where
  "daily_score ts brand_score today =
     (let n = int (length ts);
          pos = count_label ''positive'' ts;
          neg = count_label ''negative'' ts
      in [(''date'', JStr today),
          (''score'', JInt brand_score),
          (''positive'', JInt (percent pos n)),
          (''negative'', JInt (percent neg n)),
          (''neutral'', JInt (percent (n - pos - neg) n)),
          (''totalTweets'', JInt n)])"

definition entry_date :: "dict \<Rightarrow> json option" where
  "entry_date s = map_of s ''date''"

definition post_key :: "dict \<Rightarrow> json option" where
  "post_key r = map_of r ''post''"

definition present :: "'a option list \<Rightarrow> 'a option list" where
  "present ks = filter (\<lambda>k. k \<noteq> None) ks"

definition unique_dates :: "dict list \<Rightarrow> bool" where
  "unique_dates ss = distinct (present (map entry_date ss))"

definition unique_posts :: "dict list \<Rightarrow> bool" where
  "unique_posts rs = distinct (present (map post_key rs))"

definition tweet_post :: "scored_tweet \<Rightarrow> json" where
  "tweet_post t = JStr (username t @ dash_sep @ take 10 (created_at t))"

text \<open>A persisted dashboard with two days of history, one alert and pass-through
  fields.\<close>

definition example_file :: "dashboard stored" where
  "example_file = Document
     \<lparr>meta = None,
      scores = Some
        [[(''date'', JStr ''2024-05-01''), (''score'', JInt 40), (''positive'', JInt 10),
          (''negative'', JInt 30), (''neutral'', JInt 60), (''totalTweets'', JInt 10)],
         [(''date'', JStr ''2024-05-02''), (''score'', JInt 70), (''positive'', JInt 50),
          (''negative'', JInt 25), (''neutral'', JInt 25), (''totalTweets'', JInt 4)]],
      riskAlerts = Some
        [[(''severity'', JStr ''MEDIUM''), (''post'', JStr (''@user'' @ dash_sep @ ''2024-05-01'')),
          (''date'', JStr ''2024-05-01'')]],
      accountProfiles = Some (JObj [(''rainmakercorp'', JObj [(''followers'', JInt 1200)])]),
      aggregate = Some (JObj [(''mentions'', JInt 14)]),
      topMentions = Some []\<rparr>"

text \<open>
  The ratio policy in the specification's words: no match at all is neutral with score
  \<open>0\<close>; otherwise the polarity \<open>(pos - neg) / (pos + neg)\<close> is compared with \<open>0.2\<close> and
  \<open>- 0.2\<close> as an exact fraction, and the score is the polarity as a \<open>float\<close>.
\<close>

definition ratio_policy :: "nat \<Rightarrow> nat \<Rightarrow> string \<times> rat" where
  "ratio_policy p n =
     (if p + n = 0 then (''neutral'', 0)
      else let polarity = (of_nat p - of_nat n) / (of_nat p + of_nat n) :: rat
           in (if polarity > 2 / 10 then ''positive''
               else if polarity < - (2 / 10) then ''negative''
               else ''mixed'',
               fl polarity))"

text \<open>
  The vocabulary of the engagement claim. The recognized interaction counts are the keys
  of \<open>ENGAGEMENT_WEIGHTS\<close>; \<open>counts_ok\<close> says that each of them, where the mapping has it,
  is an integer that is not negative. \<open>engagement_value\<close> is the weighted sum of five
  counts as the script computes it: the integer part exactly, the views in floating point,
  the total rounded to two decimals.
\<close>

definition recognized :: "string list" where
  "recognized = map fst ENGAGEMENT_WEIGHTS"

definition counts_ok :: "dict \<Rightarrow> bool" where
  "counts_ok ms =
     list_all (\<lambda>k. case dict_get ms k (JInt 0) of JInt i \<Rightarrow> 0 \<le> i | _ \<Rightarrow> False) recognized"

definition count_at :: "dict \<Rightarrow> string \<Rightarrow> int" where
  "count_at ms k = (case dict_get ms k (JInt 0) of JInt i \<Rightarrow> i | _ \<Rightarrow> 0)"

definition engagement_value :: "int \<Rightarrow> int \<Rightarrow> int \<Rightarrow> int \<Rightarrow> int \<Rightarrow> rat" where
  "engagement_value likes retweets reposts replies views =
     round_nd 2 (fl (fl (of_int (likes + retweets * 3 + reposts * 3 + replies * 5))
                     + fl (fl (of_int views) * fl (1 / 1000))))"

text \<open>A post of the existing pull that was scored before, and a metrics dictionary with
  a key the script does not know.\<close>

definition example_post :: dict where
  "example_post =
     [(''content'', JStr ''Total SCAM, avoid''),
      (''metrics'', JObj [(''likes'', JInt 3)]),
      (''sentiment'', JStr ''custom''),
      (''risk_flag'', JBool False)]"

definition example_metrics :: dict where
  "example_metrics =
     [(''likes'', JInt 10), (''replies'', JInt 2), (''views'', JInt 1234),
      (''bookmarks'', JInt 7)]"

section \<open>Rounding: bounds, monotonicity and error\<close>

lemma rhe_cases:
  "rhe x = \<lfloor>x\<rfloor> \<or> rhe x = \<lfloor>x\<rfloor> + 1"
  by (simp add: rhe_def Let_def)

lemma rhe_bounds:
  "x - 1 / 2 \<le> of_int (rhe x) \<and> of_int (rhe x) \<le> x + 1 / 2"
proof -
  define f where "f = \<lfloor>x\<rfloor>"
  define d where "d = x - of_int f"
  have fb: "of_int f \<le> x" "x < of_int f + 1" unfolding f_def by linarith+
  have r: "rhe x = (if d < 1 / 2 then f else if 1 / 2 < d then f + 1 else if even f then f else f + 1)"
    by (simp add: rhe_def Let_def f_def d_def)
  consider "d < 1 / 2" | "1 / 2 < d" | "d = 1 / 2" by linarith
  then show ?thesis
  proof cases
    case 1
    then have "rhe x = f" by (simp add: r)
    then show ?thesis using 1 fb unfolding d_def by simp
  next
    case 2
    then have "rhe x = f + 1" by (simp add: r)
    then show ?thesis using 2 fb unfolding d_def by simp
  next
    case 3
    then have "rhe x = f \<or> rhe x = f + 1" by (simp add: r)
    then show ?thesis using 3 fb unfolding d_def by auto
  qed
qed

lemma rhe_of_int [simp]: "rhe (of_int n) = n"
  by (simp add: rhe_def Let_def)

lemma rhe_mono: assumes "x \<le> y" shows "rhe x \<le> rhe y"
proof (cases "\<lfloor>x\<rfloor> = \<lfloor>y\<rfloor>")
  case True
  with assms show ?thesis by (auto simp: rhe_def Let_def)
next
  case False
  with assms have "\<lfloor>x\<rfloor> + 1 \<le> \<lfloor>y\<rfloor>" using floor_mono[OF assms] by linarith
  moreover have "rhe x \<le> \<lfloor>x\<rfloor> + 1" using rhe_cases[of x] by linarith
  moreover have "\<lfloor>y\<rfloor> \<le> rhe y" using rhe_cases[of y] by linarith
  ultimately show ?thesis by linarith
qed

lemma rhe_minus: "rhe (- x) = - rhe x"
proof (cases "x = of_int \<lfloor>x\<rfloor>")
  case True
  then obtain n where "x = of_int n" ..
  then have "- x = of_int (- n)" by simp
  then show ?thesis using \<open>x = of_int n\<close> by (simp only: rhe_of_int)
next
  case False
  then have fm: "\<lfloor>- x\<rfloor> = - \<lfloor>x\<rfloor> - 1"
    by (simp add: floor_minus ceiling_altdef)
  have d: "- x - of_int \<lfloor>- x\<rfloor> = 1 - (x - of_int \<lfloor>x\<rfloor>)"
    by (simp add: fm)
  show ?thesis
    unfolding rhe_def Let_def d unfolding fm
    by auto
qed

lemma ilog2_bounds:
  assumes "0 < x"
  shows "2 powi ilog2 x \<le> x \<and> x < 2 powi (ilog2 x + 1)"
proof -
  obtain a b where q: "quotient_of x = (a, b)" by (cases "quotient_of x")
  have b: "0 < b" using quotient_of_denom_pos[OF q] .
  have x: "x = of_int a / of_int b" using quotient_of_div[OF q] .
  have a: "0 < a" using assms b x by (simp add: zero_less_divide_iff)
  define la lb where "la = bitlen a" and "lb = bitlen b"
  have la: "2 ^ nat (la - 1) \<le> a" "a < 2 ^ nat la" using bitlen_bounds[OF a] by (auto simp: la_def)
  have lb: "2 ^ nat (lb - 1) \<le> b" "b < 2 ^ nat lb" using bitlen_bounds[OF b] by (auto simp: lb_def)
  have la1: "1 \<le> la" using a by (auto simp: la_def bitlen_alt_def)
  have lb1: "1 \<le> lb" using b by (auto simp: lb_def bitlen_alt_def)
  have ra: "(2::rat) powi (la - 1) \<le> of_int a" "of_int a < (2::rat) powi la"
  proof -
    have "(of_int (2 ^ nat (la - 1)) :: rat) \<le> of_int a" using la(1) by (simp only: of_int_le_iff)
    then show "(2::rat) powi (la - 1) \<le> of_int a" using la1 by (simp add: power_int_def)
    have "(of_int a :: rat) < of_int (2 ^ nat la)" using la(2) by (simp only: of_int_less_iff)
    then show "of_int a < (2::rat) powi la" using la1 by (simp add: power_int_def)
  qed
  have rb: "(2::rat) powi (lb - 1) \<le> of_int b" "of_int b < (2::rat) powi lb"
  proof -
    have "(of_int (2 ^ nat (lb - 1)) :: rat) \<le> of_int b" using lb(1) by (simp only: of_int_le_iff)
    then show "(2::rat) powi (lb - 1) \<le> of_int b" using lb1 by (simp add: power_int_def)
    have "(of_int b :: rat) < of_int (2 ^ nat lb)" using lb(2) by (simp only: of_int_less_iff)
    then show "of_int b < (2::rat) powi lb" using lb1 by (simp add: power_int_def)
  qed
  have bpos: "(0::rat) < of_int b" using b by simp
  have upper: "x < 2 powi (la - lb + 1)"
  proof -
    have "of_int a < (2::rat) powi la" by (rule ra)
    also have "\<dots> = 2 powi (la - lb + 1) * 2 powi (lb - 1)"
      by (simp flip: power_int_add)
    also have "\<dots> \<le> 2 powi (la - lb + 1) * of_int b"
      by (rule mult_left_mono[OF rb(1)]) simp
    finally show ?thesis using bpos by (simp add: x pos_divide_less_eq)
  qed
  have lower: "2 powi (la - lb - 1) < x"
  proof -
    have "2 powi (la - lb - 1) * of_int b < 2 powi (la - lb - 1) * (2::rat) powi lb"
      by (rule mult_strict_left_mono[OF rb(2)]) simp
    also have "\<dots> = 2 powi (la - 1)" by (simp flip: power_int_add)
    also have "\<dots> \<le> of_int a" by (rule ra)
    finally show ?thesis using bpos by (simp add: x pos_less_divide_eq)
  qed
  show ?thesis
  proof (cases "2 powi (la - lb) \<le> x")
    case True
    then have "ilog2 x = la - lb" by (simp add: ilog2_def q la_def lb_def)
    with True upper show ?thesis by simp
  next
    case False
    then have "ilog2 x = la - lb - 1" by (simp add: ilog2_def q la_def lb_def)
    with False lower show ?thesis by simp
  qed
qed

lemma ilog2_unique:
  assumes "2 powi e \<le> x" "x < 2 powi (e + 1)"
  shows "ilog2 x = e"
proof -
  have pos: "0 < x" using assms(1) zero_less_power_int[of "2::rat" e] by linarith
  note b = ilog2_bounds[OF pos]
  have "\<not> ilog2 x + 1 \<le> e"
  proof
    assume "ilog2 x + 1 \<le> e"
    then have "(2::rat) powi (ilog2 x + 1) \<le> 2 powi e" by (intro power_int_increasing) auto
    with b assms show False by linarith
  qed
  moreover have "\<not> e + 1 \<le> ilog2 x"
  proof
    assume "e + 1 \<le> ilog2 x"
    then have "(2::rat) powi (e + 1) \<le> 2 powi ilog2 x" by (intro power_int_increasing) auto
    with b assms show False by linarith
  qed
  ultimately show ?thesis by linarith
qed

lemma ilog2_mono:
  assumes "0 < x" "x \<le> y"
  shows "ilog2 x \<le> ilog2 y"
proof (rule ccontr)
  assume "\<not> ilog2 x \<le> ilog2 y"
  then have "ilog2 y + 1 \<le> ilog2 x" by simp
  then have "(2::rat) powi (ilog2 y + 1) \<le> 2 powi ilog2 x" by (intro power_int_increasing) auto
  moreover have "0 < y" using assms by linarith
  ultimately show False using ilog2_bounds[OF assms(1)] ilog2_bounds[OF \<open>0 < y\<close>] assms(2) by linarith
qed

lemma fl_0 [simp]: "fl 0 = 0"
  by (simp add: fl_def)

lemma fl_minus: "fl (- x) = - fl x"
  by (simp add: fl_def Let_def rhe_minus)

text \<open>The unit in the last place of a positive number, and the scaled significand.\<close>

lemma fl_pos_unfold:
  assumes "0 < x"
  shows "fl x = of_int (rhe (x / 2 powi (ilog2 x - 52))) * 2 powi (ilog2 x - 52)"
  using assms by (simp add: fl_def Let_def)

lemma scaled_bounds:
  assumes "0 < x"
  shows "2 ^ 52 \<le> x / 2 powi (ilog2 x - 52) \<and> x / 2 powi (ilog2 x - 52) < 2 ^ 53"
proof -
  define u :: rat where "u = 2 powi (ilog2 x - 52)"
  have u: "0 < u" by (simp add: u_def)
  have e1: "2 ^ 52 * u = 2 powi ilog2 x"
  proof -
    have "(2::rat) ^ 52 * u = 2 powi 52 * 2 powi (ilog2 x - 52)" by (simp add: u_def)
    also have "\<dots> = 2 powi (52 + (ilog2 x - 52))" by (rule power_int_add[symmetric]) simp
    finally show ?thesis by simp
  qed
  have e2: "2 ^ 53 * u = 2 powi (ilog2 x + 1)"
  proof -
    have "(2::rat) ^ 53 * u = 2 powi 53 * 2 powi (ilog2 x - 52)" by (simp add: u_def)
    also have "\<dots> = 2 powi (53 + (ilog2 x - 52))" by (rule power_int_add[symmetric]) simp
    finally show ?thesis by (simp add: add.commute)
  qed
  from ilog2_bounds[OF assms] have "2 ^ 52 * u \<le> x" "x < 2 ^ 53 * u"
    by (simp_all only: e1 e2)
  then show ?thesis using u unfolding u_def[symmetric]
    by (simp add: pos_le_divide_eq pos_divide_less_eq)
qed

lemma fl_pos_bounds:
  assumes "0 < x"
  shows "2 powi ilog2 x \<le> fl x \<and> fl x \<le> 2 powi (ilog2 x + 1)"
proof -
  define u :: rat where "u = 2 powi (ilog2 x - 52)"
  define m where "m = rhe (x / u)"
  have u: "0 < u" by (simp add: u_def)
  have sb: "2 ^ 52 \<le> x / u" "x / u < 2 ^ 53" using scaled_bounds[OF assms] by (simp_all add: u_def)
  have "rhe (of_int (2 ^ 52)) \<le> m" unfolding m_def
    by (rule rhe_mono) (use sb in simp)
  then have m1: "2 ^ 52 \<le> m" by (simp only: rhe_of_int)
  have "m \<le> rhe (of_int (2 ^ 53))" unfolding m_def
    by (rule rhe_mono) (use sb in simp)
  then have m2: "m \<le> 2 ^ 53" by (simp only: rhe_of_int)
  have e1: "2 ^ 52 * u = 2 powi ilog2 x"
  proof -
    have "(2::rat) ^ 52 * u = 2 powi 52 * 2 powi (ilog2 x - 52)" by (simp add: u_def)
    also have "\<dots> = 2 powi (52 + (ilog2 x - 52))" by (rule power_int_add[symmetric]) simp
    finally show ?thesis by simp
  qed
  have e2: "2 ^ 53 * u = 2 powi (ilog2 x + 1)"
  proof -
    have "(2::rat) ^ 53 * u = 2 powi 53 * 2 powi (ilog2 x - 52)" by (simp add: u_def)
    also have "\<dots> = 2 powi (53 + (ilog2 x - 52))" by (rule power_int_add[symmetric]) simp
    finally show ?thesis by (simp add: add.commute)
  qed
  have f: "fl x = of_int m * u" using fl_pos_unfold[OF assms] by (simp add: m_def u_def)
  have "(of_int (2 ^ 52) :: rat) \<le> of_int m" using m1 by (simp only: of_int_le_iff)
  then have "2 ^ 52 * u \<le> of_int m * u" using u by simp
  moreover have "(of_int m :: rat) \<le> of_int (2 ^ 53)" using m2 by (simp only: of_int_le_iff)
  then have "of_int m * u \<le> 2 ^ 53 * u" using u by simp
  ultimately show ?thesis by (simp add: f e1[symmetric] e2[symmetric])
qed

lemma fl_pos: "0 < x \<Longrightarrow> 0 < fl x"
  using fl_pos_bounds[of x] zero_less_power_int[of "2::rat" "ilog2 x"] by linarith

lemma fl_mono_pos:
  assumes "0 < x" "x \<le> y"
  shows "fl x \<le> fl y"
proof -
  have y: "0 < y" using assms by linarith
  show ?thesis
  proof (cases "ilog2 x = ilog2 y")
    case True
    define u :: rat where "u = 2 powi (ilog2 y - 52)"
    have u: "0 < u" by (simp add: u_def)
    have "x / u \<le> y / u" using assms u by (simp add: divide_right_mono)
    then have "rhe (x / u) \<le> rhe (y / u)" by (rule rhe_mono)
    then have "(of_int (rhe (x / u)) :: rat) \<le> of_int (rhe (y / u))" by (simp only: of_int_le_iff)
    then have "of_int (rhe (x / u)) * u \<le> of_int (rhe (y / u)) * u" using u by simp
    then show ?thesis
      using fl_pos_unfold[OF assms(1)] fl_pos_unfold[OF y] True by (simp add: u_def)
  next
    case False
    then have "ilog2 x + 1 \<le> ilog2 y" using ilog2_mono[OF assms] by linarith
    then have "(2::rat) powi (ilog2 x + 1) \<le> 2 powi ilog2 y" by (intro power_int_increasing) auto
    then show ?thesis using fl_pos_bounds[OF assms(1)] fl_pos_bounds[OF y] by linarith
  qed
qed

lemma fl_mono:
  assumes "x \<le> y"
  shows "fl x \<le> fl y"
proof -
  consider "0 < x" | "x = 0" "y = 0" | "x = 0" "0 < y" | "x < 0" "0 \<le> y" | "x < 0" "y < 0"
    using assms by linarith
  then show ?thesis
  proof cases
    case 1
    then show ?thesis using assms by (rule fl_mono_pos)
  next
    case 2
    then show ?thesis by simp
  next
    case 3
    then show ?thesis using fl_pos[of y] by simp
  next
    case 4
    have "0 < fl (- x)" using 4 by (intro fl_pos) simp
    then have "fl x < 0" by (simp add: fl_minus)
    moreover have "0 \<le> fl y" using 4 fl_pos[of y] by (cases "y = 0") (auto simp: less_imp_le)
    ultimately show ?thesis by linarith
  next
    case 5
    have "fl (- y) \<le> fl (- x)" using 5 assms by (intro fl_mono_pos) simp_all
    then show ?thesis by (simp add: fl_minus)
  qed
qed

lemma fl_nonneg: "0 \<le> x \<Longrightarrow> 0 \<le> fl x"
  using fl_mono[of 0 x] by simp

lemma fl_error_pos:
  assumes "0 < x"
  shows "\<bar>fl x - x\<bar> \<le> x / 2 ^ 53"
proof -
  define u :: rat where "u = 2 powi (ilog2 x - 52)"
  have u: "0 < u" by (simp add: u_def)
  have f: "fl x = of_int (rhe (x / u)) * u" using fl_pos_unfold[OF assms] by (simp add: u_def)
  have "fl x - x = (of_int (rhe (x / u)) - x / u) * u" using u by (simp add: f field_simps)
  then have "\<bar>fl x - x\<bar> = \<bar>of_int (rhe (x / u)) - x / u\<bar> * u" using u by (simp add: abs_mult)
  also have "\<dots> \<le> (1 / 2) * u"
  proof -
    have "\<bar>of_int (rhe (x / u)) - x / u\<bar> \<le> 1 / 2"
      using rhe_bounds[of "x / u"] unfolding abs_le_iff by linarith
    then show ?thesis using u by (intro mult_right_mono) simp_all
  qed
  also have "\<dots> \<le> x / 2 ^ 53"
  proof -
    have "2 ^ 52 \<le> x / u" using scaled_bounds[OF assms] by (simp add: u_def)
    then have "2 ^ 52 * u \<le> x" using u by (simp add: pos_le_divide_eq)
    then show ?thesis by simp
  qed
  finally show ?thesis .
qed

lemma fl_error: "\<bar>fl x - x\<bar> \<le> \<bar>x\<bar> / 2 ^ 53"
proof -
  consider "0 < x" | "x = 0" | "x < 0" by linarith
  then show ?thesis
  proof cases
    case 1
    then show ?thesis using fl_error_pos[of x] by simp
  next
    case 2
    then show ?thesis by simp
  next
    case 3
    then have "\<bar>fl (- x) - (- x)\<bar> \<le> (- x) / 2 ^ 53" by (intro fl_error_pos) simp
    moreover have "\<bar>fl (- x) - (- x)\<bar> = \<bar>fl x - x\<bar>" by (simp add: fl_minus)
    ultimately show ?thesis using 3 by simp
  qed
qed

section \<open>collect.py: the magnitude policy\<close>

lemma take_eq_iff_prefix: "(take (length w) xs = w) = (\<exists>suf. xs = w @ suf)"
proof
  assume "take (length w) xs = w"
  then have "xs = w @ drop (length w) xs" by (metis append_take_drop_id)
  then show "\<exists>suf. xs = w @ suf" ..
next
  assume "\<exists>suf. xs = w @ suf"
  then show "take (length w) xs = w" by auto
qed

lemma substr_occurs: "substr w s = occurs w s"
proof (induction s)
  case Nil
  show ?case by (auto simp: occurs_def)
next
  case (Cons c cs)
  have "occurs w (c # cs) = ((\<exists>suf. c # cs = w @ suf) \<or> occurs w cs)"
  proof
    assume "occurs w (c # cs)"
    then obtain pre suf where e: "c # cs = pre @ w @ suf" unfolding occurs_def by blast
    show "(\<exists>suf. c # cs = w @ suf) \<or> occurs w cs"
    proof (cases pre)
      case Nil
      with e show ?thesis by auto
    next
      case (Cons a pre')
      with e have "cs = pre' @ w @ suf" by simp
      then show ?thesis unfolding occurs_def by blast
    qed
  next
    assume "(\<exists>suf. c # cs = w @ suf) \<or> occurs w cs"
    then show "occurs w (c # cs)"
    proof
      assume "\<exists>suf. c # cs = w @ suf"
      then obtain suf where "c # cs = [] @ w @ suf" by auto
      then show ?thesis unfolding occurs_def by blast
    next
      assume "occurs w cs"
      then obtain pre suf where "cs = pre @ w @ suf" unfolding occurs_def by blast
      then have "c # cs = (c # pre) @ w @ suf" by simp
      then show ?thesis unfolding occurs_def by blast
    qed
  qed
  with Cons show ?case by (simp add: take_eq_iff_prefix del: take_Suc_Cons)
qed

lemma matching_keywords_filter:
  "matching_keywords ws txt = set (filter (\<lambda>w. substr w (lower txt)) ws)"
  by (auto simp: matching_keywords_def substr_occurs)

lemma count_matches_card:
  assumes "distinct ws"
  shows "count_matches ws (lower txt) = card (matching_keywords ws txt)"
proof -
  have "matching_keywords ws txt = {w. substr w (lower txt)} \<inter> set ws"
    by (auto simp: matching_keywords_def substr_occurs)
  then show ?thesis
    using assms by (simp add: count_matches_def distinct_length_filter)
qed

lemma distinct_POSITIVE_WORDS: "distinct POSITIVE_WORDS"
  by code_simp

lemma distinct_NEGATIVE_WORDS: "distinct NEGATIVE_WORDS"
  by code_simp

lemma distinct_RISK_KEYWORDS_positive: "distinct RISK_KEYWORDS_positive"
  by code_simp

lemma distinct_RISK_KEYWORDS_negative: "distinct RISK_KEYWORDS_negative"
  by code_simp

lemma collect_score_sentiment_counts:
  "collect_score_sentiment txt =
     magnitude_policy (count_matches POSITIVE_WORDS (lower txt))
                      (count_matches NEGATIVE_WORDS (lower txt))"
  by (simp add: collect_score_sentiment_def magnitude_policy_def Let_def)

text \<open>
  Claim C4. For every text, the classifier of \<^verbatim>\<open>collect.py\<close> returns what the magnitude
  policy gives on the numbers of distinct positive and negative keywords occurring in the
  lowercased text: positive with confidence \<open>min (0.5 + 0.15 * pos) 0.95\<close> when there are
  more positive matches, negative with \<open>min (0.5 + 0.15 * neg) 0.95\<close> when there are more
  negative ones, and neutral with confidence exactly \<open>0.5\<close> otherwise; a text that no
  keyword matches is neutral with confidence \<open>0.5\<close>.
\<close>

theorem collect_score_sentiment_magnitude:
  "collect_score_sentiment txt =
     magnitude_policy (card (matching_keywords POSITIVE_WORDS txt))
                      (card (matching_keywords NEGATIVE_WORDS txt))
   \<and> (matching_keywords POSITIVE_WORDS txt = {} \<and> matching_keywords NEGATIVE_WORDS txt = {}
        \<longrightarrow> collect_score_sentiment txt = (''neutral'', 1 / 2))"
proof -
  have eq: "collect_score_sentiment txt =
     magnitude_policy (card (matching_keywords POSITIVE_WORDS txt))
                      (card (matching_keywords NEGATIVE_WORDS txt))"
    by (simp add: collect_score_sentiment_counts count_matches_card
        distinct_POSITIVE_WORDS distinct_NEGATIVE_WORDS)
  moreover have "magnitude_policy 0 0 = (''neutral'', 1 / 2)"
    by (simp add: magnitude_policy_def)
  ultimately show ?thesis by simp
qed

theorem collect_score_sentiment_magnitude_witness:
  "matching_keywords POSITIVE_WORDS ''Weather today is mild'' = {}
   \<and> matching_keywords NEGATIVE_WORDS ''Weather today is mild'' = {}
   \<and> collect_score_sentiment ''Weather today is mild'' = (''neutral'', 1 / 2)"
proof -
  have p: "matching_keywords POSITIVE_WORDS ''Weather today is mild'' = {}"
    unfolding matching_keywords_filter by code_simp
  have n: "matching_keywords NEGATIVE_WORDS ''Weather today is mild'' = {}"
    unfolding matching_keywords_filter by code_simp
  show ?thesis
    using collect_score_sentiment_magnitude [of "''Weather today is mild''"] p n by blast
qed

section \<open>collect.py: the brand score\<close>

lemma sum_list_reach_nonneg:
  assumes "\<forall>t\<in>set ts. 0 \<le> reach t"
  shows "0 \<le> sum_list (map reach ts)"
  using assms by (induction ts) auto

text \<open>
  Claim C1. For every batch of scored mentions \<^verbatim>\<open>compute_brand_score\<close> returns an integer
  in \<open>[0, 100]\<close>; for the empty batch it returns \<open>50\<close>; and for a non-empty batch whose reach
  values are not negative it is the rounded blend \<open>0.4 * count_score + 0.6 * reach_score\<close>
  clamped to \<open>[0, 100]\<close>, with the reach total floored at \<open>1\<close>.
\<close>

theorem compute_brand_score_range_formula:
  "0 \<le> compute_brand_score ts \<and> compute_brand_score ts \<le> 100
   \<and> compute_brand_score [] = 50
   \<and> (ts \<noteq> [] \<and> (\<forall>t\<in>set ts. 0 \<le> reach t)
        \<longrightarrow> compute_brand_score ts = brand_score_formula ts)"
proof -
  have range: "0 \<le> compute_brand_score ts \<and> compute_brand_score ts \<le> 100"
    by (simp add: compute_brand_score_def Let_def)
  have empty: "compute_brand_score [] = 50"
    by (simp add: compute_brand_score_def)
  have formula: "compute_brand_score ts = brand_score_formula ts"
    if ne: "ts \<noteq> []" and nonneg: "\<forall>t\<in>set ts. 0 \<le> reach t"
  proof -
    have "0 \<le> sum_list (map reach ts)" using nonneg by (rule sum_list_reach_nonneg)
    then have "(if sum_list (map reach ts) \<noteq> 0 then sum_list (map reach ts) else 1)
                 = max (sum_list (map reach ts)) 1"
      by (simp add: max_def)
    then show ?thesis
      using ne by (simp add: compute_brand_score_def brand_score_formula_def Let_def)
  qed
  from range empty formula show ?thesis by blast
qed

theorem compute_brand_score_range_formula_witness:
  "example_batch \<noteq> [] \<and> list_all (\<lambda>t. 0 \<le> reach t) example_batch
   \<and> compute_brand_score example_batch = brand_score_formula example_batch
   \<and> compute_brand_score example_batch = 59"
proof -
  have ne: "example_batch \<noteq> []" by (simp add: example_batch_def)
  have nonneg: "list_all (\<lambda>t. 0 \<le> reach t) example_batch"
    by (simp add: example_batch_def example_tweet_def)
  then have "\<forall>t\<in>set example_batch. 0 \<le> reach t" by (simp add: list_all_iff)
  with ne have "compute_brand_score example_batch = brand_score_formula example_batch"
    using compute_brand_score_range_formula [of example_batch] by blast
  moreover have "compute_brand_score example_batch = 59" by code_simp
  ultimately show ?thesis using ne nonneg by simp
qed

section \<open>collect.py: the date-keyed merge\<close>

subsection \<open>The percentages of a DailyScore entry\<close>

lemma fl_close:
  assumes "\<bar>x\<bar> \<le> b"
  shows "\<bar>fl x - x\<bar> \<le> b / 2 ^ 53"
proof -
  have "\<bar>fl x - x\<bar> \<le> \<bar>x\<bar> / 2 ^ 53" by (rule fl_error)
  also have "\<dots> \<le> b / 2 ^ 53" using assms by (simp add: divide_right_mono)
  finally show ?thesis .
qed

lemma percent_close:
  assumes "0 \<le> c" "c \<le> n" "0 < n"
  shows "\<bar>of_int (percent c n) - 100 * of_int c / of_int n\<bar> \<le> (1 / 2 + 1 / 1000 :: rat)"
proof -
  define x :: rat where "x = of_int c / of_int n"
  define y where "y = fl x"
  define z where "z = fl (y * 100)"
  have x: "0 \<le> x" "x \<le> 1" using assms by (simp_all add: x_def)
  have yx: "\<bar>y - x\<bar> \<le> 1 / 2 ^ 53" unfolding y_def using x by (intro fl_close) simp
  then have y2: "\<bar>y * 100\<bar> \<le> 200" using x unfolding abs_le_iff by simp
  have zy: "\<bar>z - y * 100\<bar> \<le> 200 / 2 ^ 53" unfolding z_def using y2 by (rule fl_close)
  have "\<bar>z - 100 * x\<bar> \<le> 300 / 2 ^ 53" using yx zy unfolding abs_le_iff by simp
  then have zx: "\<bar>z - 100 * x\<bar> \<le> 1 / 1000" unfolding abs_le_iff by simp
  have p: "percent c n = rhe z" using assms by (simp add: percent_def z_def y_def x_def)
  have "\<bar>of_int (rhe z) - z\<bar> \<le> 1 / 2" using rhe_bounds[of z] unfolding abs_le_iff by linarith
  then have "\<bar>of_int (rhe z) - 100 * x\<bar> \<le> 1 / 2 + 1 / 1000" using zx unfolding abs_le_iff by linarith
  then show ?thesis by (simp add: p x_def)
qed

lemma count_label_nonneg: "0 \<le> count_label l ts"
  by (simp add: count_label_def)

lemma count_label_pos_neg: "count_label ''positive'' ts + count_label ''negative'' ts \<le> int (length ts)"
proof -
  have "length (filter (\<lambda>t. sentiment t = ''positive'') ts)
        + length (filter (\<lambda>t. sentiment t = ''negative'') ts) \<le> length ts"
    by (induction ts) auto
  then show ?thesis by (simp add: count_label_def)
qed

lemma percent_sum:
  assumes "0 \<le> a" "0 \<le> b" "a + b \<le> n" "0 < n"
  shows "\<bar>percent a n + percent b n + percent (n - a - b) n - 100\<bar> \<le> 1"
proof -
  define c where "c = n - a - b"
  have c: "0 \<le> c" "c \<le> n" "a \<le> n" "b \<le> n" using assms by (simp_all add: c_def)
  have n: "(of_int n :: rat) \<noteq> 0" using assms by simp
  have "100 * of_int a / of_int n + 100 * of_int b / of_int n + 100 * of_int c / of_int n
        = (100 * of_int (a + b + c) / of_int n :: rat)"
    by (simp add: add_divide_distrib distrib_left)
  also have "\<dots> = 100" using n by (simp add: c_def)
  finally have s: "100 * of_int a / of_int n + 100 * of_int b / of_int n + 100 * of_int c / of_int n
        = (100 :: rat)" .
  note pa = percent_close[OF assms(1) c(3) assms(4)]
  note pb = percent_close[OF assms(2) c(4) assms(4)]
  note pc = percent_close[OF c(1) c(2) assms(4)]
  have "\<bar>(of_int (percent a n) + of_int (percent b n) + of_int (percent c n)) - (100 :: rat)\<bar> < 2"
    using pa pb pc s unfolding abs_le_iff abs_less_iff by linarith
  then have "\<bar>(of_int (percent a n + percent b n + percent c n - 100) :: rat)\<bar> < of_int 2"
    by simp
  then have "\<bar>percent a n + percent b n + percent c n - 100\<bar> < 2"
    by (simp only: of_int_abs[symmetric] of_int_less_iff)
  then show ?thesis by (simp add: c_def)
qed

lemma last_n_snoc: "0 < n \<Longrightarrow> last_n n (xs @ [x]) = last_n (n - 1) xs @ [x]"
  by (auto simp: last_n_def)

lemma build_dashboard_json_scores:
  "scores (build_dashboard_json ts b now today file) =
     Some (last_n 90 (filter (\<lambda>s. entry_date s \<noteq> Some (JStr today)) (existing_scores file)
                      @ [daily_score ts b today]))"
  by (simp add: build_dashboard_json_def existing_scores_def daily_score_def entry_date_def Let_def)

text \<open>
  Claim C7. The DailyScore entry that the merge appends is the last entry of the new
  series; its positive, negative and neutral percentages are the integers
  \<open>round (count / total * 100)\<close>. When the batch is not empty the three percentages sum to
  \<open>100\<close> up to rounding, that is to \<open>99\<close>, \<open>100\<close> or \<open>101\<close>; for the empty batch all three
  are \<open>0\<close>.
\<close>

theorem daily_score_percentages:
  "(\<exists>ss. scores (build_dashboard_json ts b now today file) = Some ss \<and> ss \<noteq> []
          \<and> last ss = daily_score ts b today)
   \<and> map_of (daily_score ts b today) ''positive''
       = Some (JInt (percent (count_label ''positive'' ts) (int (length ts))))
   \<and> map_of (daily_score ts b today) ''negative''
       = Some (JInt (percent (count_label ''negative'' ts) (int (length ts))))
   \<and> map_of (daily_score ts b today) ''neutral''
       = Some (JInt (percent (int (length ts) - count_label ''positive'' ts
                                - count_label ''negative'' ts) (int (length ts))))
   \<and> (ts \<noteq> [] \<longrightarrow>
        (\<forall>c. percent c (int (length ts))
               = rhe (fl (fl (of_int c / of_int (int (length ts))) * 100)))
        \<and> \<bar>percent (count_label ''positive'' ts) (int (length ts))
            + percent (count_label ''negative'' ts) (int (length ts))
            + percent (int (length ts) - count_label ''positive'' ts
                         - count_label ''negative'' ts) (int (length ts)) - 100\<bar> \<le> 1)
   \<and> (ts = [] \<longrightarrow>
        percent (count_label ''positive'' ts) (int (length ts)) = 0
        \<and> percent (count_label ''negative'' ts) (int (length ts)) = 0
        \<and> percent (int (length ts) - count_label ''positive'' ts
                      - count_label ''negative'' ts) (int (length ts)) = 0)"
proof -
  have last: "\<exists>ss. scores (build_dashboard_json ts b now today file) = Some ss \<and> ss \<noteq> []
          \<and> last ss = daily_score ts b today"
    by (simp add: build_dashboard_json_scores last_n_snoc)
  have fields:
    "map_of (daily_score ts b today) ''positive''
       = Some (JInt (percent (count_label ''positive'' ts) (int (length ts))))"
    "map_of (daily_score ts b today) ''negative''
       = Some (JInt (percent (count_label ''negative'' ts) (int (length ts))))"
    "map_of (daily_score ts b today) ''neutral''
       = Some (JInt (percent (int (length ts) - count_label ''positive'' ts
                                - count_label ''negative'' ts) (int (length ts))))"
    by (simp_all add: daily_score_def Let_def)
  have nonempty: "(\<forall>c. percent c (int (length ts))
               = rhe (fl (fl (of_int c / of_int (int (length ts))) * 100)))
        \<and> \<bar>percent (count_label ''positive'' ts) (int (length ts))
            + percent (count_label ''negative'' ts) (int (length ts))
            + percent (int (length ts) - count_label ''positive'' ts
                         - count_label ''negative'' ts) (int (length ts)) - 100\<bar> \<le> 1"
    if "ts \<noteq> []"
  proof -
    from that have n: "0 < int (length ts)" by simp
    have "\<forall>c. percent c (int (length ts))
               = rhe (fl (fl (of_int c / of_int (int (length ts))) * 100))"
      using n by (simp add: percent_def)
    moreover note percent_sum[OF count_label_nonneg count_label_nonneg count_label_pos_neg n]
    ultimately show ?thesis by blast
  qed
  have empty: "percent (count_label ''positive'' ts) (int (length ts)) = 0
        \<and> percent (count_label ''negative'' ts) (int (length ts)) = 0
        \<and> percent (int (length ts) - count_label ''positive'' ts
                      - count_label ''negative'' ts) (int (length ts)) = 0"
    if "ts = []"
    using that by (simp add: percent_def)
  from last fields nonempty empty show ?thesis by blast
qed

theorem daily_score_percentages_witness:
  "example_batch \<noteq> []
   \<and> percent (count_label ''positive'' example_batch) (int (length example_batch)) = 33
   \<and> percent (count_label ''negative'' example_batch) (int (length example_batch)) = 33
   \<and> percent (int (length example_batch) - count_label ''positive'' example_batch
                - count_label ''negative'' example_batch) (int (length example_batch)) = 33
   \<and> \<bar>percent (count_label ''positive'' example_batch) (int (length example_batch))
       + percent (count_label ''negative'' example_batch) (int (length example_batch))
       + percent (int (length example_batch) - count_label ''positive'' example_batch
                    - count_label ''negative'' example_batch) (int (length example_batch)) - 100\<bar> \<le> 1
   \<and> percent (count_label ''positive'' []) (int (length ([] :: scored_tweet list))) = 0"
proof -
  have ne: "example_batch \<noteq> []" by (simp add: example_batch_def)
  have p: "percent (count_label ''positive'' example_batch) (int (length example_batch)) = 33"
    by code_simp
  have n: "percent (count_label ''negative'' example_batch) (int (length example_batch)) = 33"
    by code_simp
  have u: "percent (int (length example_batch) - count_label ''positive'' example_batch
                - count_label ''negative'' example_batch) (int (length example_batch)) = 33"
    by code_simp
  have e: "percent (count_label ''positive'' []) (int (length ([] :: scored_tweet list))) = 0"
    using daily_score_percentages [of "[]" 50 "''now''" "''2024-05-02''" Missing] by blast
  have "\<bar>percent (count_label ''positive'' example_batch) (int (length example_batch))
       + percent (count_label ''negative'' example_batch) (int (length example_batch))
       + percent (int (length example_batch) - count_label ''positive'' example_batch
                    - count_label ''negative'' example_batch) (int (length example_batch)) - 100\<bar> \<le> 1"
    using daily_score_percentages [of example_batch 59 "''now''" "''2024-05-02''" Missing] ne
    by blast
  with ne p n u e show ?thesis by blast
qed

subsection \<open>The score series\<close>

lemma present_append: "present (xs @ ys) = present xs @ present ys"
  by (simp add: present_def)

lemma distinct_present_filter:
  assumes "distinct (present (map f xs))"
  shows "distinct (present (map f (filter P xs)))"
  using assms by (induction xs) (force simp: present_def)+

lemma distinct_present_drop:
  assumes "distinct (present (map f xs))"
  shows "distinct (present (map f (drop n xs)))"
proof -
  have "present (map f xs) = present (map f (take n xs)) @ present (map f (drop n xs))"
    by (metis append_take_drop_id map_append present_append)
  with assms show ?thesis by simp
qed

lemma set_present_filter:
  "Some k \<notin> set (present (map f (filter (\<lambda>x. f x \<noteq> Some k) xs)))"
  by (auto simp: present_def)

lemma entry_date_daily_score: "entry_date (daily_score ts b today) = Some (JStr today)"
  by (simp add: entry_date_def daily_score_def Let_def)

lemma unique_dates_merge:
  assumes "unique_dates old"
  shows "unique_dates (last_n 90 (filter (\<lambda>s. entry_date s \<noteq> Some (JStr today)) old
                                    @ [daily_score ts b today]))"
proof -
  let ?kept = "filter (\<lambda>s. entry_date s \<noteq> Some (JStr today)) old"
  have d: "distinct (present (map entry_date ?kept))"
    using assms unfolding unique_dates_def by (rule distinct_present_filter)
  have "present (map entry_date (?kept @ [daily_score ts b today]))
          = present (map entry_date ?kept) @ [Some (JStr today)]"
    by (simp add: present_def entry_date_daily_score)
  moreover have "Some (JStr today) \<notin> set (present (map entry_date ?kept))"
    by (rule set_present_filter)
  ultimately have "distinct (present (map entry_date (?kept @ [daily_score ts b today])))"
    using d by simp
  then show ?thesis
    unfolding unique_dates_def last_n_def by (rule distinct_present_drop)
qed

lemma todays_entry_merge:
  "filter (\<lambda>s. entry_date s = Some (JStr today))
     (last_n 90 (filter (\<lambda>s. entry_date s \<noteq> Some (JStr today)) old @ [daily_score ts b today]))
   = [daily_score ts b today]"
proof -
  let ?kept = "filter (\<lambda>s. entry_date s \<noteq> Some (JStr today)) old"
  have "set (last_n 89 ?kept) \<subseteq> set ?kept"
    unfolding last_n_def by (rule set_drop_subset)
  then have "filter (\<lambda>s. entry_date s = Some (JStr today)) (last_n 89 ?kept) = []"
    by (auto simp: filter_empty_conv)
  then show ?thesis
    by (simp add: last_n_snoc entry_date_daily_score)
qed

lemma existing_scores_Document:
  "existing_scores (Document (build_dashboard_json ts b now today file)) =
     last_n 90 (filter (\<lambda>s. entry_date s \<noteq> Some (JStr today)) (existing_scores file)
                @ [daily_score ts b today])"
proof -
  have "existing_scores (Document (build_dashboard_json ts b now today file))
          = (case scores (build_dashboard_json ts b now today file) of None \<Rightarrow> [] | Some xs \<Rightarrow> xs)"
    by (simp add: existing_scores_def load_existing_def)
  then show ?thesis by (simp add: build_dashboard_json_scores)
qed

text \<open>
  Claim C2. The merge removes every persisted entry whose date is today's, appends the
  entry of the new day, and keeps the last 90 entries, so at most 90. If no date occurs
  twice in the persisted series, none does in the merged one. After two merges for the same
  date, the second on the outcome of the first, the series holds exactly one entry for
  that date, the entry of the second run, and again no date occurs twice.
\<close>

theorem merge_score_series:
  "scores (build_dashboard_json ts b now today file) =
     Some (last_n 90 (filter (\<lambda>s. entry_date s \<noteq> Some (JStr today)) (existing_scores file)
                      @ [daily_score ts b today]))
   \<and> length (existing_scores (Document (build_dashboard_json ts b now today file))) \<le> 90
   \<and> (unique_dates (existing_scores file) \<longrightarrow>
        unique_dates (existing_scores (Document (build_dashboard_json ts b now today file))))
   \<and> filter (\<lambda>s. entry_date s = Some (JStr today))
        (existing_scores (Document (build_dashboard_json ts2 b2 now2 today
           (Document (build_dashboard_json ts b now today file)))))
       = [daily_score ts2 b2 today]
   \<and> (unique_dates (existing_scores file) \<longrightarrow>
        unique_dates (existing_scores (Document (build_dashboard_json ts2 b2 now2 today
           (Document (build_dashboard_json ts b now today file))))))"
proof -
  let ?first = "Document (build_dashboard_json ts b now today file)"
  have once: "unique_dates (existing_scores ?first)" if "unique_dates (existing_scores file)"
    unfolding existing_scores_Document using that by (rule unique_dates_merge)
  have twice: "unique_dates (existing_scores (Document (build_dashboard_json ts2 b2 now2 today ?first)))"
    if "unique_dates (existing_scores file)"
    unfolding existing_scores_Document [of ts2 b2 now2 today ?first]
    using once [OF that] by (rule unique_dates_merge)
  have one: "filter (\<lambda>s. entry_date s = Some (JStr today))
        (existing_scores (Document (build_dashboard_json ts2 b2 now2 today ?first)))
       = [daily_score ts2 b2 today]"
    unfolding existing_scores_Document [of ts2 b2 now2 today ?first]
    by (rule todays_entry_merge)
  have len: "length (existing_scores ?first) \<le> 90"
    unfolding existing_scores_Document by (simp add: last_n_def)
  from build_dashboard_json_scores [of ts b now today "file"] len once twice one
  show ?thesis by blast
qed

theorem merge_score_series_witness:
  "unique_dates (existing_scores example_file)
   \<and> unique_dates (existing_scores (Document (build_dashboard_json example_batch 59 ''t1''
        ''2024-05-02'' example_file)))
   \<and> filter (\<lambda>s. entry_date s = Some (JStr ''2024-05-02''))
        (existing_scores (Document (build_dashboard_json [] 50 ''t2'' ''2024-05-02''
           (Document (build_dashboard_json example_batch 59 ''t1'' ''2024-05-02'' example_file)))))
       = [daily_score [] 50 ''2024-05-02'']
   \<and> unique_dates (existing_scores (Document (build_dashboard_json [] 50 ''t2'' ''2024-05-02''
           (Document (build_dashboard_json example_batch 59 ''t1'' ''2024-05-02'' example_file)))))"
proof -
  have u: "unique_dates (existing_scores example_file)"
    by (simp add: unique_dates_def present_def existing_scores_def load_existing_def
        example_file_def entry_date_def)
  show ?thesis
    using merge_score_series [of example_batch 59 "''t1''" "''2024-05-02''" example_file
        "[]" 50 "''t2''"] u
    by blast
qed

subsection \<open>The risk alerts\<close>

lemma alert_step_cases:
  "alert_step today rs t = rs
   \<or> (\<exists>a. alert_step today rs t = rs @ [a] \<and> post_key a = Some (tweet_post t)
           \<and> Some (tweet_post t) \<notin> set (map post_key rs))"
  by (auto simp: alert_step_def Let_def list_ex_iff post_key_def tweet_post_def)

lemma alert_step_duplicate:
  assumes "Some (tweet_post t) \<in> set (map post_key rs)"
  shows "alert_step today rs t = rs"
  using assms alert_step_cases [of today rs t] by auto

lemma unique_posts_alert_step:
  assumes "unique_posts rs"
  shows "unique_posts (alert_step today rs t)"
proof -
  from alert_step_cases [of today rs t] show ?thesis
  proof
    assume "alert_step today rs t = rs"
    with assms show ?thesis by simp
  next
    assume "\<exists>a. alert_step today rs t = rs @ [a] \<and> post_key a = Some (tweet_post t)
           \<and> Some (tweet_post t) \<notin> set (map post_key rs)"
    then obtain a where a: "alert_step today rs t = rs @ [a]" "post_key a = Some (tweet_post t)"
      "Some (tweet_post t) \<notin> set (map post_key rs)" by blast
    have "present (map post_key (rs @ [a])) = present (map post_key rs) @ [Some (tweet_post t)]"
      by (simp add: present_def a(2))
    moreover have "Some (tweet_post t) \<notin> set (present (map post_key rs))"
      using a(3) by (simp add: present_def)
    ultimately show ?thesis
      using assms by (simp add: unique_posts_def a(1))
  qed
qed

lemma unique_posts_foldl:
  "unique_posts rs \<Longrightarrow> unique_posts (foldl (alert_step today) rs ts)"
  by (induction ts arbitrary: rs) (simp_all add: unique_posts_alert_step)

lemma alert_step_extends: "\<exists>new. alert_step today rs t = rs @ new"
  using alert_step_cases [of today rs t] by auto

lemma foldl_alert_step_extends: "\<exists>new. foldl (alert_step today) rs ts = rs @ new"
proof (induction ts arbitrary: rs)
  case Nil
  show ?case by simp
next
  case (Cons t ts)
  obtain n1 where n1: "alert_step today rs t = rs @ n1"
    using alert_step_extends by blast
  obtain n2 where "foldl (alert_step today) (rs @ n1) ts = (rs @ n1) @ n2"
    using Cons.IH by blast
  then show ?case by (simp add: n1)
qed

lemma build_dashboard_json_riskAlerts:
  "riskAlerts (build_dashboard_json ts b now today file) =
     Some (last_n 50 (foldl (alert_step today) (existing_alerts file) ts))"
  by (simp add: build_dashboard_json_def existing_alerts_def Let_def)

text \<open>
  Claim C3. The merged alert list is the persisted list, followed by the alerts of the
  batch that were appended, cut to its last 50: it has at most 50 alerts, and if no
  deduplication key occurred twice in the persisted list, none does in the merged one. An
  alert whose key already occurs in the list is dropped and the list, with the alert first
  seen for that key, stays as it is.
\<close>

theorem merge_risk_alerts:
  "riskAlerts (build_dashboard_json ts b now today file) =
     Some (last_n 50 (foldl (alert_step today) (existing_alerts file) ts))
   \<and> length (last_n 50 (foldl (alert_step today) (existing_alerts file) ts)) \<le> 50
   \<and> (unique_posts (existing_alerts file) \<longrightarrow>
        unique_posts (last_n 50 (foldl (alert_step today) (existing_alerts file) ts)))
   \<and> (\<exists>new. foldl (alert_step today) (existing_alerts file) ts = existing_alerts file @ new)
   \<and> (Some (tweet_post t) \<in> set (map post_key rs) \<longrightarrow> alert_step today rs t = rs)"
proof -
  have len: "length (last_n 50 (foldl (alert_step today) (existing_alerts file) ts)) \<le> 50"
    by (simp add: last_n_def)
  have uniq: "unique_posts (last_n 50 (foldl (alert_step today) (existing_alerts file) ts))"
    if "unique_posts (existing_alerts file)"
  proof -
    have "unique_posts (foldl (alert_step today) (existing_alerts file) ts)"
      using that by (rule unique_posts_foldl)
    then show ?thesis
      unfolding unique_posts_def last_n_def by (rule distinct_present_drop)
  qed
  from build_dashboard_json_riskAlerts [of ts b now today "file"] len uniq
    foldl_alert_step_extends [of today "existing_alerts file" ts]
    alert_step_duplicate [of t rs today]
  show ?thesis by blast
qed

theorem merge_risk_alerts_witness:
  "unique_posts (existing_alerts example_file)
   \<and> unique_posts (last_n 50 (foldl (alert_step ''2024-05-02'') (existing_alerts example_file)
        example_batch))
   \<and> Some (tweet_post (hd example_batch)) \<in> set (map post_key (existing_alerts example_file))
   \<and> alert_step ''2024-05-02'' (existing_alerts example_file) (hd example_batch)
       = existing_alerts example_file"
proof -
  have u: "unique_posts (existing_alerts example_file)"
    by (simp add: unique_posts_def present_def existing_alerts_def load_existing_def
        example_file_def post_key_def)
  have k: "Some (tweet_post (hd example_batch)) \<in> set (map post_key (existing_alerts example_file))"
    by (simp add: existing_alerts_def load_existing_def example_file_def post_key_def
        tweet_post_def example_batch_def example_tweet_def)
  show ?thesis
    using merge_risk_alerts [of example_batch 59 "''t1''" "''2024-05-02''" example_file
        "hd example_batch" "existing_alerts example_file"] u k
    by blast
qed

subsection \<open>The empty batch and the pass-through fields\<close>

text \<open>
  Claim C8 says that the merge leaves the score series alone on an empty batch. It does
  not: on no persisted file at all, the merged series of the empty batch has an entry.
\<close>

theorem empty_batch_updates_scores:
  "scores (build_dashboard_json [] (compute_brand_score []) ''2024-05-02T08:00:00+00:00''
             ''2024-05-02'' Missing)
     = Some [[(''date'', JStr ''2024-05-02''), (''score'', JInt 50), (''positive'', JInt 0),
              (''negative'', JInt 0), (''neutral'', JInt 0), (''totalTweets'', JInt 0)]]
   \<and> scores (build_dashboard_json [] (compute_brand_score []) ''2024-05-02T08:00:00+00:00''
             ''2024-05-02'' Missing)
     \<noteq> scores (load_existing Missing)"
  by (simp add: build_dashboard_json_def load_existing_def compute_brand_score_def last_n_def
      percent_def count_label_def Let_def)

text \<open>
  Claim C8, amended. On an empty batch the brand score is the neutral default \<open>50\<close>, and
  the merge still updates the score series: every persisted entry dated today is removed
  and an entry for today with the given score, all three percentages \<open>0\<close> and a total of
  \<open>0\<close> is appended, the last 90 entries being kept. No alert is added. The account
  profiles and the aggregate of the persisted state are carried into the output
  unmodified (as the empty object when the state has none), as they are for every batch.
  \<^verbatim>\<open>main\<close> never merges an empty batch: it returns and the persisted file stays as it is.
\<close>

theorem empty_batch_merge:
  "compute_brand_score [] = 50
   \<and> scores (build_dashboard_json [] b now today file) =
       Some (last_n 90 (filter (\<lambda>s. entry_date s \<noteq> Some (JStr today)) (existing_scores file)
               @ [[(''date'', JStr today), (''score'', JInt b), (''positive'', JInt 0),
                   (''negative'', JInt 0), (''neutral'', JInt 0), (''totalTweets'', JInt 0)]]))
   \<and> riskAlerts (build_dashboard_json [] b now today file)
       = Some (last_n 50 (existing_alerts file))
   \<and> accountProfiles (build_dashboard_json ts b now today file)
       = Some (case accountProfiles (load_existing file) of None \<Rightarrow> JObj [] | Some v \<Rightarrow> v)
   \<and> aggregate (build_dashboard_json ts b now today file)
       = Some (case aggregate (load_existing file) of None \<Rightarrow> JObj [] | Some v \<Rightarrow> v)
   \<and> collect_main [] users_map now today file = file"
proof -
  have "daily_score [] b today =
          [(''date'', JStr today), (''score'', JInt b), (''positive'', JInt 0),
           (''negative'', JInt 0), (''neutral'', JInt 0), (''totalTweets'', JInt 0)]"
    by (simp add: daily_score_def percent_def count_label_def Let_def)
  then have s: "scores (build_dashboard_json [] b now today file) =
       Some (last_n 90 (filter (\<lambda>s. entry_date s \<noteq> Some (JStr today)) (existing_scores file)
               @ [[(''date'', JStr today), (''score'', JInt b), (''positive'', JInt 0),
                   (''negative'', JInt 0), (''neutral'', JInt 0), (''totalTweets'', JInt 0)]]))"
    by (simp add: build_dashboard_json_scores)
  have r: "riskAlerts (build_dashboard_json [] b now today file)
       = Some (last_n 50 (existing_alerts file))"
    by (simp add: build_dashboard_json_riskAlerts)
  have p: "accountProfiles (build_dashboard_json ts b now today file)
       = Some (case accountProfiles (load_existing file) of None \<Rightarrow> JObj [] | Some v \<Rightarrow> v)"
    by (simp add: build_dashboard_json_def Let_def)
  have a: "aggregate (build_dashboard_json ts b now today file)
       = Some (case aggregate (load_existing file) of None \<Rightarrow> JObj [] | Some v \<Rightarrow> v)"
    by (simp add: build_dashboard_json_def Let_def)
  have m: "collect_main [] users_map now today file = file"
    by (simp add: collect_main_def)
  have c: "compute_brand_score [] = 50"
    by (simp add: compute_brand_score_def)
  from c s r p a m show ?thesis by blast
qed

theorem empty_batch_merge_witness:
  "accountProfiles (build_dashboard_json [] 50 ''t1'' ''2024-05-02'' example_file)
     = Some (JObj [(''rainmakercorp'', JObj [(''followers'', JInt 1200)])])
   \<and> aggregate (build_dashboard_json [] 50 ''t1'' ''2024-05-02'' example_file)
     = Some (JObj [(''mentions'', JInt 14)])
   \<and> scores (build_dashboard_json [] 50 ''t1'' ''2024-05-02'' example_file)
     = Some [[(''date'', JStr ''2024-05-01''), (''score'', JInt 40), (''positive'', JInt 10),
              (''negative'', JInt 30), (''neutral'', JInt 60), (''totalTweets'', JInt 10)],
             [(''date'', JStr ''2024-05-02''), (''score'', JInt 50), (''positive'', JInt 0),
              (''negative'', JInt 0), (''neutral'', JInt 0), (''totalTweets'', JInt 0)]]"
  using empty_batch_merge [of 50 "''t1''" "''2024-05-02''" example_file "[]"]
  by (simp add: example_file_def load_existing_def existing_scores_def entry_date_def last_n_def)

section \<open>scorer.py: classifier, engagement and posts\<close>

subsection \<open>The ratio policy\<close>

lemma fl_less_iff:
  assumes "\<bar>a\<bar> \<le> 1" "\<bar>b\<bar> \<le> 1" "b \<le> a \<or> a + 1 / 2 ^ 50 \<le> b"
  shows "(fl a < fl b) = (a < b)"
proof (cases "b \<le> a")
  case True
  then have "fl b \<le> fl a" by (rule fl_mono)
  with True show ?thesis by simp
next
  case False
  with assms(3) have gap: "a + 1 / 2 ^ 50 \<le> b" by simp
  have "\<bar>fl a - a\<bar> \<le> 1 / 2 ^ 53" using assms(1) by (rule fl_close)
  moreover have "\<bar>fl b - b\<bar> \<le> 1 / 2 ^ 53" using assms(2) by (rule fl_close)
  ultimately have "fl a < fl b" using gap unfolding abs_le_iff by simp
  with False show ?thesis by simp
qed

lemma ratio_gap_above:
  fixes m d :: int
  assumes "0 < d" "d \<le> 24" "(2 / 10 :: rat) < of_int m / of_int d"
  shows "(2 / 10 :: rat) + 1 / 2 ^ 50 \<le> of_int m / of_int d"
proof -
  have dpos: "(0 :: rat) < of_int d" using assms(1) by simp
  from assms(3) dpos have "(of_int d :: rat) < 5 * of_int m"
    by (simp add: pos_less_divide_eq)
  then have "(of_int d :: rat) < of_int (5 * m)" by simp
  then have "d < 5 * m" by (simp only: of_int_less_iff)
  then have "d + 1 \<le> 5 * m" by simp
  then have "(of_int (d + 1) :: rat) \<le> of_int (5 * m)" by (simp only: of_int_le_iff)
  then have "(of_int d + 1 :: rat) \<le> 5 * of_int m" by simp
  then have "(of_int d + 1) / (5 * of_int d) \<le> (5 * of_int m) / (5 * of_int d :: rat)"
    using dpos by (intro divide_right_mono) simp_all
  moreover have "(5 * of_int m) / (5 * of_int d) = (of_int m / of_int d :: rat)"
    by simp
  moreover have "(of_int d + 1) / (5 * of_int d) = (2 / 10 + 1 / (5 * of_int d) :: rat)"
    using dpos by (simp add: add_divide_distrib)
  moreover have "(1 / 2 ^ 50 :: rat) \<le> 1 / (5 * of_int d)"
  proof -
    have "(of_int d :: rat) \<le> of_int 24" using assms(2) by (simp only: of_int_le_iff)
    then have "(5 * of_int d :: rat) \<le> 2 ^ 50" by simp
    then show ?thesis using dpos by (intro divide_left_mono) simp_all
  qed
  ultimately show ?thesis by linarith
qed

lemma ratio_gap_below:
  fixes m d :: int
  assumes "0 < d" "d \<le> 24" "(of_int m / of_int d :: rat) < - (2 / 10)"
  shows "(of_int m / of_int d :: rat) + 1 / 2 ^ 50 \<le> - (2 / 10)"
proof -
  have neg: "of_int (- m) / of_int d = - (of_int m / of_int d :: rat)" by simp
  then have "(2 / 10 :: rat) < of_int (- m) / of_int d" using assms(3) by linarith
  from ratio_gap_above [OF assms(1) assms(2) this] show ?thesis
    unfolding neg by linarith
qed

lemma ratio_abs_le_1:
  fixes p n :: nat
  assumes "0 < p + n"
  shows "\<bar>(of_int (int p - int n) / of_int (int (p + n)) :: rat)\<bar> \<le> 1"
proof -
  have b: "(0 :: rat) < of_int (int (p + n))" using assms by (simp only: of_int_0_less_iff of_nat_0_less_iff)
  have "\<bar>int p - int n\<bar> \<le> int (p + n)" by simp
  then have "(of_int \<bar>int p - int n\<bar> :: rat) \<le> of_int (int (p + n))" by (simp only: of_int_le_iff)
  then have "\<bar>of_int (int p - int n) :: rat\<bar> \<le> of_int (int (p + n))" by (simp only: of_int_abs)
  then have "\<bar>of_int (int p - int n) :: rat\<bar> / of_int (int (p + n)) \<le> 1"
    using b by (simp only: pos_divide_le_eq mult_1)
  moreover have "\<bar>(of_int (int p - int n) / of_int (int (p + n)) :: rat)\<bar>
       = \<bar>of_int (int p - int n) :: rat\<bar> / of_int (int (p + n))"
    using b by (simp only: abs_divide abs_of_pos)
  ultimately show ?thesis by simp
qed

lemma count_matches_le: "count_matches ws s \<le> length ws"
  by (simp add: count_matches_def)

lemma scorer_score_sentiment_counts:
  assumes "p = count_matches RISK_KEYWORDS_positive (lower txt)"
    and "n = count_matches RISK_KEYWORDS_negative (lower txt)"
  shows "scorer_score_sentiment txt = ratio_policy p n"
proof (cases "p + n = 0")
  case True
  then show ?thesis
    using assms by (simp add: scorer_score_sentiment_def ratio_policy_def Let_def)
next
  case False
  define q :: rat where "q = of_int (int p - int n) / of_int (int (p + n))"
  have "0 < p + n" using False by simp
  then have d: "0 < int (p + n)" by (simp only: of_nat_0_less_iff)
  have "p \<le> 11" using count_matches_le [of RISK_KEYWORDS_positive "lower txt"]
    by (simp add: assms RISK_KEYWORDS_positive_def)
  moreover have "n \<le> 13" using count_matches_le [of RISK_KEYWORDS_negative "lower txt"]
    by (simp add: assms RISK_KEYWORDS_negative_def)
  ultimately have d24: "int (p + n) \<le> 24" by simp
  have q1: "\<bar>q\<bar> \<le> 1" unfolding q_def using False by (intro ratio_abs_le_1) simp
  have above: "(fl (2 / 10) < fl q) = (2 / 10 < q)"
  proof (rule fl_less_iff)
    show "\<bar>2 / 10 :: rat\<bar> \<le> 1" by simp
    show "\<bar>q\<bar> \<le> 1" by (rule q1)
    show "q \<le> 2 / 10 \<or> 2 / 10 + 1 / 2 ^ 50 \<le> q"
      using ratio_gap_above [OF d d24, of "int p - int n"] unfolding q_def by linarith
  qed
  have below: "(fl q < fl (- (2 / 10))) = (q < - (2 / 10))"
  proof (rule fl_less_iff)
    show "\<bar>- (2 / 10) :: rat\<bar> \<le> 1" by simp
    show "\<bar>q\<bar> \<le> 1" by (rule q1)
    show "- (2 / 10) \<le> q \<or> q + 1 / 2 ^ 50 \<le> - (2 / 10)"
      using ratio_gap_below [OF d d24, of "int p - int n"] unfolding q_def by linarith
  qed
  have pol: "(of_nat p - of_nat n) / (of_nat p + of_nat n) = q"
    by (simp add: q_def)
  have code: "scorer_score_sentiment txt =
      (if fl q > fl (2 / 10) then (''positive'', fl q)
       else if fl q < - fl (2 / 10) then (''negative'', fl q)
       else (''mixed'', fl q))"
    using False assms by (simp add: scorer_score_sentiment_def Let_def q_def)
  have spec: "ratio_policy p n =
      (if q > 2 / 10 then ''positive'' else if q < - (2 / 10) then ''negative'' else ''mixed'',
       fl q)"
    using False by (simp add: ratio_policy_def Let_def pol)
  show ?thesis
    unfolding code spec using above below by (simp add: fl_minus)
qed

lemma ratio_policy_neutral:
  "(ratio_policy p n = (''neutral'', 0)) = (p = 0 \<and> n = 0)"
  by (simp add: ratio_policy_def Let_def)

lemma ratio_policy_label:
  "fst (ratio_policy p n) \<in> {''positive'', ''negative'', ''neutral'', ''mixed''}"
  by (simp add: ratio_policy_def Let_def)

lemma finite_matching_keywords: "finite (matching_keywords ws txt)"
  by (simp add: matching_keywords_def)

text \<open>
  Claim C5. For every text, the classifier of \<^verbatim>\<open>scorer.py\<close> returns what the ratio
  policy gives on the numbers of distinct positive and negative keywords occurring in the
  lowercased text: it returns neutral with score \<open>0.0\<close> exactly when no keyword matches,
  and otherwise labels the polarity \<open>(pos - neg) / (pos + neg)\<close> positive above \<open>0.2\<close>,
  negative below \<open>- 0.2\<close> and mixed in between. The label is one of the four, and the
  result is a function of the text and the keyword lists alone.
\<close>

theorem scorer_score_sentiment_ratio:
  "scorer_score_sentiment txt =
     ratio_policy (card (matching_keywords RISK_KEYWORDS_positive txt))
                  (card (matching_keywords RISK_KEYWORDS_negative txt))
   \<and> ((scorer_score_sentiment txt = (''neutral'', 0)) =
        (matching_keywords RISK_KEYWORDS_positive txt = {}
         \<and> matching_keywords RISK_KEYWORDS_negative txt = {}))
   \<and> fst (scorer_score_sentiment txt) \<in> {''positive'', ''negative'', ''neutral'', ''mixed''}"
proof -
  have eq: "scorer_score_sentiment txt =
     ratio_policy (card (matching_keywords RISK_KEYWORDS_positive txt))
                  (card (matching_keywords RISK_KEYWORDS_negative txt))"
    by (rule scorer_score_sentiment_counts)
      (simp_all add: count_matches_card distinct_RISK_KEYWORDS_positive
        distinct_RISK_KEYWORDS_negative)
  show ?thesis
    unfolding eq ratio_policy_neutral
    using ratio_policy_label by (simp add: finite_matching_keywords)
qed

theorem scorer_score_sentiment_ratio_witness:
  "matching_keywords RISK_KEYWORDS_positive ''Weather today is mild'' = {}
   \<and> matching_keywords RISK_KEYWORDS_negative ''Weather today is mild'' = {}
   \<and> scorer_score_sentiment ''Weather today is mild'' = (''neutral'', 0)"
proof -
  have p: "matching_keywords RISK_KEYWORDS_positive ''Weather today is mild'' = {}"
    unfolding matching_keywords_filter by code_simp
  have n: "matching_keywords RISK_KEYWORDS_negative ''Weather today is mild'' = {}"
    unfolding matching_keywords_filter by code_simp
  show ?thesis
    using scorer_score_sentiment_ratio [of "''Weather today is mild''"] p n by blast
qed

subsection \<open>The engagement score\<close>

lemma rhe_nonneg: "0 \<le> x \<Longrightarrow> 0 \<le> rhe x"
  using rhe_mono [of 0 x] rhe_of_int [of 0] by simp

lemma rhe_0: "rhe 0 = 0"
  using rhe_of_int [of 0] by simp

lemma round_nd_mono:
  assumes "x \<le> y"
  shows "round_nd k x \<le> round_nd k y"
proof -
  have "x * 10 ^ k \<le> y * 10 ^ k" using assms by (simp add: mult_right_mono)
  then have "rhe (x * 10 ^ k) \<le> rhe (y * 10 ^ k)" by (rule rhe_mono)
  then have "(of_int (rhe (x * 10 ^ k)) :: rat) \<le> of_int (rhe (y * 10 ^ k))"
    by (simp only: of_int_le_iff)
  then have "(of_int (rhe (x * 10 ^ k)) / 10 ^ k :: rat) \<le> of_int (rhe (y * 10 ^ k)) / 10 ^ k"
    by (simp add: divide_right_mono)
  then show ?thesis unfolding round_nd_def by (rule fl_mono)
qed

lemma round_nd_nonneg:
  assumes "0 \<le> x"
  shows "0 \<le> round_nd k x"
proof -
  have "round_nd k 0 \<le> round_nd k x" using assms by (rule round_nd_mono)
  then show ?thesis by (simp add: round_nd_def rhe_0)
qed

lemma engagement_value_mono:
  assumes "l \<le> l'" "rt \<le> rt'" "rp \<le> rp'" "r \<le> r'" "v \<le> v'"
  shows "engagement_value l rt rp r v \<le> engagement_value l' rt' rp' r' v'"
proof -
  have "l + rt * 3 + rp * 3 + r * 5 \<le> l' + rt' * 3 + rp' * 3 + r' * 5"
    using assms by simp
  then have "(of_int (l + rt * 3 + rp * 3 + r * 5) :: rat)
               \<le> of_int (l' + rt' * 3 + rp' * 3 + r' * 5)"
    by (simp only: of_int_le_iff)
  then have a: "fl (of_int (l + rt * 3 + rp * 3 + r * 5))
                 \<le> fl (of_int (l' + rt' * 3 + rp' * 3 + r' * 5))"
    by (rule fl_mono)
  have "(of_int v :: rat) \<le> of_int v'" using assms(5) by (simp only: of_int_le_iff)
  then have "fl (of_int v) \<le> fl (of_int v')" by (rule fl_mono)
  moreover have "0 \<le> fl (1 / 1000)" by (rule fl_nonneg) simp
  ultimately have "fl (of_int v) * fl (1 / 1000) \<le> fl (of_int v') * fl (1 / 1000)"
    by (rule mult_right_mono)
  then have b: "fl (fl (of_int v) * fl (1 / 1000)) \<le> fl (fl (of_int v') * fl (1 / 1000))"
    by (rule fl_mono)
  from a b have "fl (of_int (l + rt * 3 + rp * 3 + r * 5)) + fl (fl (of_int v) * fl (1 / 1000))
        \<le> fl (of_int (l' + rt' * 3 + rp' * 3 + r' * 5)) + fl (fl (of_int v') * fl (1 / 1000))"
    by (rule add_mono)
  then show ?thesis
    unfolding engagement_value_def by (intro round_nd_mono fl_mono)
qed

lemma engagement_value_0: "engagement_value 0 0 0 0 0 = 0"
  by (simp add: engagement_value_def round_nd_def rhe_0)

lemma engagement_value_nonneg:
  assumes "0 \<le> l" "0 \<le> rt" "0 \<le> rp" "0 \<le> r" "0 \<le> v"
  shows "0 \<le> engagement_value l rt rp r v"
  using engagement_value_mono [OF assms] by (simp add: engagement_value_0)

lemma score_engagement_ints:
  assumes "dict_get ms ''likes'' (JInt 0) = JInt l"
    and "dict_get ms ''retweets'' (JInt 0) = JInt rt"
    and "dict_get ms ''reposts'' (JInt 0) = JInt rp"
    and "dict_get ms ''replies'' (JInt 0) = JInt r"
    and "dict_get ms ''views'' (JInt 0) = JInt v"
  shows "score_engagement ms = Inr (PFloat (engagement_value l rt rp r v))"
  by (simp add: score_engagement_def ENGAGEMENT_WEIGHTS_def assms engagement_value_def)

lemma counts_ok_iff:
  "counts_ok ms =
     ((\<exists>i\<ge>0. dict_get ms ''likes'' (JInt 0) = JInt i)
      \<and> (\<exists>i\<ge>0. dict_get ms ''retweets'' (JInt 0) = JInt i)
      \<and> (\<exists>i\<ge>0. dict_get ms ''reposts'' (JInt 0) = JInt i)
      \<and> (\<exists>i\<ge>0. dict_get ms ''replies'' (JInt 0) = JInt i)
      \<and> (\<exists>i\<ge>0. dict_get ms ''views'' (JInt 0) = JInt i))"
  by (auto simp: counts_ok_def recognized_def ENGAGEMENT_WEIGHTS_def split: json.splits)

lemma dict_get_update:
  "dict_get (AList.update k v ms) k' d = (if k' = k then v else dict_get ms k' d)"
  by (simp add: dict_get_def update_conv')

lemma engagement_sum_cong:
  assumes "\<And>k. k \<in> set (map fst ws) \<Longrightarrow> dict_get ms k (JInt 0) = dict_get ms' k (JInt 0)"
  shows "engagement_sum ms ws acc = engagement_sum ms' ws acc"
  using assms
proof (induction ws arbitrary: acc)
  case Nil
  show ?case by simp
next
  case (Cons kw ws)
  obtain key weight where kw: "kw = (key, weight)" by (cases kw)
  have h: "dict_get ms key (JInt 0) = dict_get ms' key (JInt 0)"
    using Cons.prems [of key] by (simp add: kw)
  have t: "engagement_sum ms ws a = engagement_sum ms' ws a" for a
    by (rule Cons.IH) (use Cons.prems in simp)
  show ?case by (simp add: kw h t split: sum.splits)
qed

lemma score_engagement_cong:
  assumes "\<And>k. k \<in> set recognized \<Longrightarrow> dict_get ms k (JInt 0) = dict_get ms' k (JInt 0)"
  shows "score_engagement ms = score_engagement ms'"
proof -
  have "engagement_sum ms ENGAGEMENT_WEIGHTS (PInt 0) = engagement_sum ms' ENGAGEMENT_WEIGHTS (PInt 0)"
    by (rule engagement_sum_cong) (use assms in \<open>simp add: recognized_def\<close>)
  then show ?thesis by (simp add: score_engagement_def)
qed

lemma score_engagement_unknown_key:
  assumes "k \<notin> set recognized"
  shows "score_engagement (AList.update k v ms) = score_engagement ms"
proof (rule score_engagement_cong)
  fix k' assume "k' \<in> set recognized"
  with assms have "k' \<noteq> k" by auto
  then show "dict_get (AList.update k v ms) k' (JInt 0) = dict_get ms k' (JInt 0)"
    by (simp add: dict_get_update)
qed

lemma score_engagement_missing_key:
  assumes "map_of ms k = None"
  shows "score_engagement (AList.update k (JInt 0) ms) = score_engagement ms"
proof (rule score_engagement_cong)
  fix k'
  have "dict_get ms k (JInt 0) = JInt 0" using assms by (simp add: dict_get_def)
  then show "dict_get (AList.update k (JInt 0) ms) k' (JInt 0) = dict_get ms k' (JInt 0)"
    unfolding dict_get_update by simp
qed

lemma score_engagement_returns:
  assumes "counts_ok ms"
  shows "score_engagement ms =
           Inr (PFloat (engagement_value (count_at ms ''likes'') (count_at ms ''retweets'')
                  (count_at ms ''reposts'') (count_at ms ''replies'') (count_at ms ''views'')))
         \<and> 0 \<le> engagement_value (count_at ms ''likes'') (count_at ms ''retweets'')
                  (count_at ms ''reposts'') (count_at ms ''replies'') (count_at ms ''views'')"
proof -
  from assms obtain l rt rp r v where g:
    "dict_get ms ''likes'' (JInt 0) = JInt l" "0 \<le> l"
    "dict_get ms ''retweets'' (JInt 0) = JInt rt" "0 \<le> rt"
    "dict_get ms ''reposts'' (JInt 0) = JInt rp" "0 \<le> rp"
    "dict_get ms ''replies'' (JInt 0) = JInt r" "0 \<le> r"
    "dict_get ms ''views'' (JInt 0) = JInt v" "0 \<le> v"
    unfolding counts_ok_iff by blast
  have c: "count_at ms ''likes'' = l" "count_at ms ''retweets'' = rt"
    "count_at ms ''reposts'' = rp" "count_at ms ''replies'' = r" "count_at ms ''views'' = v"
    by (simp_all add: count_at_def g)
  show ?thesis
    unfolding c
    using score_engagement_ints [OF g(1) g(3) g(5) g(7) g(9)]
      engagement_value_nonneg [OF g(2) g(4) g(6) g(8) g(10)]
    by simp
qed

lemma counts_ok_update:
  assumes "counts_ok ms" "0 \<le> i"
  shows "counts_ok (AList.update k (JInt i) ms)"
  using assms unfolding counts_ok_iff by (auto simp: dict_get_update)

lemma count_at_update:
  "count_at (AList.update k (JInt i) ms) k' = (if k' = k then i else count_at ms k')"
  by (simp add: count_at_def dict_get_update)

lemma score_engagement_monotone:
  assumes ok: "counts_ok ms" and i: "0 \<le> i" and ij: "i \<le> j"
  shows "\<exists>x y. score_engagement (AList.update k (JInt i) ms) = Inr (PFloat x)
             \<and> score_engagement (AList.update k (JInt j) ms) = Inr (PFloat y) \<and> x \<le> y"
proof -
  have j: "0 \<le> j" using i ij by simp
  note ri = score_engagement_returns [OF counts_ok_update [OF ok i, of k]]
  note rj = score_engagement_returns [OF counts_ok_update [OF ok j, of k]]
  have "engagement_value (count_at (AList.update k (JInt i) ms) ''likes'')
          (count_at (AList.update k (JInt i) ms) ''retweets'')
          (count_at (AList.update k (JInt i) ms) ''reposts'')
          (count_at (AList.update k (JInt i) ms) ''replies'')
          (count_at (AList.update k (JInt i) ms) ''views'')
        \<le> engagement_value (count_at (AList.update k (JInt j) ms) ''likes'')
          (count_at (AList.update k (JInt j) ms) ''retweets'')
          (count_at (AList.update k (JInt j) ms) ''reposts'')
          (count_at (AList.update k (JInt j) ms) ''replies'')
          (count_at (AList.update k (JInt j) ms) ''views'')"
    by (rule engagement_value_mono) (simp_all add: count_at_update ij)
  with ri rj show ?thesis by blast
qed

text \<open>
  Claim C9. For a mapping whose recognized interaction counts are integers that are not
  negative, \<^verbatim>\<open>score_engagement\<close> returns a number that is not negative; raising one
  recognized count while the others stay fixed does not lower the result; a key that is not
  recognized does not affect the result; and a missing key counts as \<open>0\<close>.
\<close>

theorem score_engagement_monotone_nonneg:
  "(counts_ok ms \<longrightarrow> (\<exists>x. score_engagement ms = Inr (PFloat x) \<and> 0 \<le> x))
   \<and> (counts_ok ms \<and> k \<in> set recognized \<and> 0 \<le> i \<and> i \<le> j \<longrightarrow>
        (\<exists>x y. score_engagement (AList.update k (JInt i) ms) = Inr (PFloat x)
             \<and> score_engagement (AList.update k (JInt j) ms) = Inr (PFloat y) \<and> x \<le> y))
   \<and> (k' \<notin> set recognized \<longrightarrow> score_engagement (AList.update k' v ms) = score_engagement ms)
   \<and> (map_of ms k'' = None \<longrightarrow>
        score_engagement (AList.update k'' (JInt 0) ms) = score_engagement ms)"
  using score_engagement_returns [of ms] score_engagement_monotone [of ms i j k]
    score_engagement_unknown_key [of k' v ms] score_engagement_missing_key [of ms k'']
  by blast

theorem score_engagement_monotone_nonneg_witness:
  "counts_ok example_metrics
   \<and> ''likes'' \<in> set recognized \<and> (0 :: int) \<le> 10 \<and> (10 :: int) \<le> 11
   \<and> (\<exists>x. score_engagement example_metrics = Inr (PFloat x) \<and> 0 \<le> x)
   \<and> (\<exists>x y. score_engagement (AList.update ''likes'' (JInt 10) example_metrics) = Inr (PFloat x)
          \<and> score_engagement (AList.update ''likes'' (JInt 11) example_metrics) = Inr (PFloat y)
          \<and> x \<le> y)
   \<and> ''bookmarks'' \<notin> set recognized
   \<and> score_engagement (AList.update ''bookmarks'' (JInt 9) example_metrics)
       = score_engagement example_metrics
   \<and> map_of example_metrics ''retweets'' = None
   \<and> score_engagement (AList.update ''retweets'' (JInt 0) example_metrics)
       = score_engagement example_metrics"
proof -
  have ok: "counts_ok example_metrics"
    by (simp add: counts_ok_def recognized_def ENGAGEMENT_WEIGHTS_def example_metrics_def
        dict_get_def)
  have l: "''likes'' \<in> set recognized"
    by (simp add: recognized_def ENGAGEMENT_WEIGHTS_def)
  have b: "''bookmarks'' \<notin> set recognized"
    by (simp add: recognized_def ENGAGEMENT_WEIGHTS_def)
  have m: "map_of example_metrics ''retweets'' = None"
    by (simp add: example_metrics_def)
  have n: "(0 :: int) \<le> 10 \<and> (10 :: int) \<le> 11" by simp
  show ?thesis
    using score_engagement_monotone_nonneg [of example_metrics "''likes''" 10 11
        "''bookmarks''" "JInt 9" "''retweets''"] ok l b m n
    by blast
qed

subsection \<open>Posts that were scored before\<close>

lemma score_existing_post_returns:
  assumes "dict_get post ''content'' (JStr []) = JStr txt"
    and "dict_get post ''metrics'' (JObj []) = JObj ms"
    and "score_engagement ms = Inr e"
  shows "score_existing_post post = Inr
           (AList.update ''risk_flag''
              (dict_get post ''risk_flag'' (JBool (length (detect_risk txt) > 0)))
           (AList.update ''risk_keywords'' (JArr (map JStr (detect_risk txt)))
           (AList.update ''engagement_score'' (of_num e)
           (AList.update ''sentiment''
              (if \<not> truthy (dict_get post ''sentiment'' JNull)
               then JStr (fst (scorer_score_sentiment txt))
               else dict_get post ''sentiment'' JNull)
            post))))"
  by (simp add: score_existing_post_def assms Let_def split: prod.splits)

lemma truthy_dict_get:
  assumes "truthy (dict_get post k JNull)"
  shows "map_of post k = Some (dict_get post k JNull)"
  using assms by (cases "map_of post k") (simp_all add: dict_get_def)

text \<open>
  Claim C10. A post whose text is a string (or missing) and whose metrics are a dictionary
  of numbers (or missing) is scored without an exception. A truthy \<^verbatim>\<open>sentiment\<close> of the
  post is kept and the label just computed is discarded; without one the label is stored.
  A \<^verbatim>\<open>risk_flag\<close> key that is present keeps its value, whatever risk keywords were found;
  when it is absent the flag says whether any was found. \<^verbatim>\<open>risk_keywords\<close> and
  \<^verbatim>\<open>engagement_score\<close> are always the recomputed values, and every other key of the post
  is returned as it was.
\<close>

theorem score_existing_post_keeps:
  "dict_get post ''content'' (JStr []) = JStr txt
   \<and> dict_get post ''metrics'' (JObj []) = JObj ms
   \<and> score_engagement ms = Inr e \<longrightarrow>
   (\<exists>out. score_existing_post post = Inr out
      \<and> (truthy (dict_get post ''sentiment'' JNull) \<longrightarrow>
           map_of out ''sentiment'' = map_of post ''sentiment'')
      \<and> (\<not> truthy (dict_get post ''sentiment'' JNull) \<longrightarrow>
           map_of out ''sentiment'' = Some (JStr (fst (scorer_score_sentiment txt))))
      \<and> (map_of post ''risk_flag'' \<noteq> None \<longrightarrow>
           map_of out ''risk_flag'' = map_of post ''risk_flag'')
      \<and> (map_of post ''risk_flag'' = None \<longrightarrow>
           map_of out ''risk_flag'' = Some (JBool (detect_risk txt \<noteq> [])))
      \<and> map_of out ''risk_keywords'' = Some (JArr (map JStr (detect_risk txt)))
      \<and> map_of out ''engagement_score'' = Some (of_num e)
      \<and> (\<forall>k. k \<notin> {''sentiment'', ''engagement_score'', ''risk_keywords'', ''risk_flag''}
             \<longrightarrow> map_of out k = map_of post k))"
proof (intro impI, elim conjE)
  assume c: "dict_get post ''content'' (JStr []) = JStr txt"
    and m: "dict_get post ''metrics'' (JObj []) = JObj ms"
    and e: "score_engagement ms = Inr e"
  define out where "out =
           AList.update ''risk_flag''
              (dict_get post ''risk_flag'' (JBool (length (detect_risk txt) > 0)))
           (AList.update ''risk_keywords'' (JArr (map JStr (detect_risk txt)))
           (AList.update ''engagement_score'' (of_num e)
           (AList.update ''sentiment''
              (if \<not> truthy (dict_get post ''sentiment'' JNull)
               then JStr (fst (scorer_score_sentiment txt))
               else dict_get post ''sentiment'' JNull)
            post)))"
  have r: "score_existing_post post = Inr out"
    unfolding out_def using c m e by (rule score_existing_post_returns)
  have sent: "map_of out ''sentiment'' =
      Some (if \<not> truthy (dict_get post ''sentiment'' JNull)
            then JStr (fst (scorer_score_sentiment txt))
            else dict_get post ''sentiment'' JNull)"
    unfolding out_def update_conv' by simp
  have flag: "map_of out ''risk_flag'' =
      Some (dict_get post ''risk_flag'' (JBool (length (detect_risk txt) > 0)))"
    unfolding out_def update_conv' by simp
  have s1: "truthy (dict_get post ''sentiment'' JNull) \<longrightarrow>
           map_of out ''sentiment'' = map_of post ''sentiment''"
  proof
    assume t: "truthy (dict_get post ''sentiment'' JNull)"
    show "map_of out ''sentiment'' = map_of post ''sentiment''"
      unfolding sent truthy_dict_get [OF t] using t by simp
  qed
  have s2: "\<not> truthy (dict_get post ''sentiment'' JNull) \<longrightarrow>
           map_of out ''sentiment'' = Some (JStr (fst (scorer_score_sentiment txt)))"
    unfolding sent by simp
  have f1: "map_of post ''risk_flag'' \<noteq> None \<longrightarrow>
           map_of out ''risk_flag'' = map_of post ''risk_flag''"
    unfolding flag dict_get_def by (cases "map_of post ''risk_flag''") simp_all
  have f2: "map_of post ''risk_flag'' = None \<longrightarrow>
           map_of out ''risk_flag'' = Some (JBool (detect_risk txt \<noteq> []))"
    unfolding flag dict_get_def by (cases "map_of post ''risk_flag''") simp_all
  have k: "map_of out ''risk_keywords'' = Some (JArr (map JStr (detect_risk txt)))"
    unfolding out_def update_conv' by simp
  have g: "map_of out ''engagement_score'' = Some (of_num e)"
    unfolding out_def update_conv' by simp
  have o: "\<forall>k. k \<notin> {''sentiment'', ''engagement_score'', ''risk_keywords'', ''risk_flag''}
             \<longrightarrow> map_of out k = map_of post k"
    unfolding out_def update_conv' by simp
  show "\<exists>out. score_existing_post post = Inr out
      \<and> (truthy (dict_get post ''sentiment'' JNull) \<longrightarrow>
           map_of out ''sentiment'' = map_of post ''sentiment'')
      \<and> (\<not> truthy (dict_get post ''sentiment'' JNull) \<longrightarrow>
           map_of out ''sentiment'' = Some (JStr (fst (scorer_score_sentiment txt))))
      \<and> (map_of post ''risk_flag'' \<noteq> None \<longrightarrow>
           map_of out ''risk_flag'' = map_of post ''risk_flag'')
      \<and> (map_of post ''risk_flag'' = None \<longrightarrow>
           map_of out ''risk_flag'' = Some (JBool (detect_risk txt \<noteq> [])))
      \<and> map_of out ''risk_keywords'' = Some (JArr (map JStr (detect_risk txt)))
      \<and> map_of out ''engagement_score'' = Some (of_num e)
      \<and> (\<forall>k. k \<notin> {''sentiment'', ''engagement_score'', ''risk_keywords'', ''risk_flag''}
             \<longrightarrow> map_of out k = map_of post k)"
    by (intro exI [of _ out] conjI r s1 s2 f1 f2 k g o)
qed

theorem score_existing_post_keeps_witness:
  "dict_get example_post ''content'' (JStr []) = JStr ''Total SCAM, avoid''
   \<and> dict_get example_post ''metrics'' (JObj []) = JObj [(''likes'', JInt 3)]
   \<and> score_engagement [(''likes'', JInt 3)] = Inr (PFloat 3)
   \<and> truthy (dict_get example_post ''sentiment'' JNull)
   \<and> map_of example_post ''risk_flag'' = Some (JBool False)
   \<and> detect_risk ''Total SCAM, avoid'' = [''scam'', ''avoid'']
   \<and> fst (scorer_score_sentiment ''Total SCAM, avoid'') = ''negative''
   \<and> (\<exists>out. score_existing_post example_post = Inr out
        \<and> map_of out ''sentiment'' = Some (JStr ''custom'')
        \<and> map_of out ''risk_flag'' = Some (JBool False)
        \<and> map_of out ''risk_keywords'' = Some (JArr [JStr ''scam'', JStr ''avoid''])
        \<and> map_of out ''engagement_score'' = Some (JFloat 3))"
proof -
  have c: "dict_get example_post ''content'' (JStr []) = JStr ''Total SCAM, avoid''"
    by (simp add: example_post_def dict_get_def)
  have m: "dict_get example_post ''metrics'' (JObj []) = JObj [(''likes'', JInt 3)]"
    by (simp add: example_post_def dict_get_def)
  have e: "score_engagement [(''likes'', JInt 3)] = Inr (PFloat 3)"
    by code_simp
  have t: "truthy (dict_get example_post ''sentiment'' JNull)"
    by (simp add: example_post_def dict_get_def)
  have s: "map_of example_post ''sentiment'' = Some (JStr ''custom'')"
    by (simp add: example_post_def)
  have f: "map_of example_post ''risk_flag'' = Some (JBool False)"
    by (simp add: example_post_def)
  have d: "detect_risk ''Total SCAM, avoid'' = [''scam'', ''avoid'']"
    by code_simp
  have l: "fst (scorer_score_sentiment ''Total SCAM, avoid'') = ''negative''"
    by code_simp
  note th = score_existing_post_keeps [of example_post "''Total SCAM, avoid''"
      "[(''likes'', JInt 3)]" "PFloat 3", THEN mp, OF conjI [OF c conjI [OF m e]]]
  from th obtain out where out: "score_existing_post example_post = Inr out"
    "truthy (dict_get example_post ''sentiment'' JNull) \<longrightarrow>
       map_of out ''sentiment'' = map_of example_post ''sentiment''"
    "map_of example_post ''risk_flag'' \<noteq> None \<longrightarrow>
       map_of out ''risk_flag'' = map_of example_post ''risk_flag''"
    "map_of out ''risk_keywords'' = Some (JArr (map JStr (detect_risk ''Total SCAM, avoid'')))"
    "map_of out ''engagement_score'' = Some (of_num (PFloat 3))"
    by (elim exE conjE)
  have "map_of out ''sentiment'' = Some (JStr ''custom'')" using out(2) t s by simp
  moreover have "map_of out ''risk_flag'' = Some (JBool False)" using out(3) f by simp
  moreover have "map_of out ''risk_keywords'' = Some (JArr [JStr ''scam'', JStr ''avoid''])"
    using out(4) d by simp
  moreover have "map_of out ''engagement_score'' = Some (JFloat 3)" using out(5) by simp
  ultimately have "\<exists>out. score_existing_post example_post = Inr out
        \<and> map_of out ''sentiment'' = Some (JStr ''custom'')
        \<and> map_of out ''risk_flag'' = Some (JBool False)
        \<and> map_of out ''risk_keywords'' = Some (JArr [JStr ''scam'', JStr ''avoid''])
        \<and> map_of out ''engagement_score'' = Some (JFloat 3)"
    using out(1) by (intro exI [of _ out] conjI)
  with c m e t f d l show ?thesis by (intro conjI)
qed

subsection \<open>Persisted state that is absent or malformed\<close>

text \<open>
  Claim C6 says that both loads go on with the empty default when the persisted state is
  absent or does not parse. The load of \<^verbatim>\<open>build_dashboard_json\<close> does: a missing file and
  a file that does not parse both give the default. \<^verbatim>\<open>process_existing\<close> does not: it
  raises \<^verbatim>\<open>JSONDecodeError\<close> on a file that does not parse and \<^verbatim>\<open>FileNotFoundError\<close> on a
  missing one. \<^verbatim>\<open>main\<close> of \<^verbatim>\<open>scorer.py\<close> guards the missing file only, so a file that does
  not parse stops the run.
\<close>

theorem process_existing_corrupt_raises:
  "process_existing Corrupt = Inl JSONDecodeError
   \<and> process_existing Missing = Inl FileNotFoundError
   \<and> scorer_main_load Corrupt = Inl JSONDecodeError
   \<and> scorer_main_load Missing = Inr ([(''recentPosts'', JArr []), (''accounts'', JObj [])], {})
   \<and> load_existing Corrupt = load_existing Missing
   \<and> scores (load_existing Corrupt) = Some [] \<and> riskAlerts (load_existing Corrupt) = None"
  by (simp add: process_existing_def scorer_main_load_def load_existing_def)

end
